theory Spec2Isabelle
  imports Main
begin

section \<open>JavaScript values\<close>

text \<open>
  Protocol messages are the values \<^verbatim>\<open>JSON.parse\<close> yields.  Numbers are restricted to
  integers and an object is the list of its (distinct) keys with their values.
  \<open>JUndef\<close> is JavaScript's \<^verbatim>\<open>undefined\<close>, the result of reading a property that
  is not there.  Strings are \<^typ>\<open>string\<close>, one \<^typ>\<open>char\<close> per code unit.
  Equality of values is JavaScript's \<^verbatim>\<open>===\<close> on strings, numbers, booleans and
  \<^verbatim>\<open>null\<close>, which is what the protocol's identifiers are; \<^verbatim>\<open>Map\<close> and \<^verbatim>\<open>Set\<close> compare
  their keys the same way.
\<close>

datatype json =
    JUndef
  | JNull
  | JBool bool
  | JNum int
  | JStr string
  | JArr "json list"
  | JObj "(string \<times> json) list"

text \<open>Truthiness, as \<^verbatim>\<open>if (v)\<close>, \<^verbatim>\<open>!v\<close> and \<^verbatim>\<open>v || w\<close> test it.\<close>

fun truthy :: "json \<Rightarrow> bool" where
  "truthy JUndef = False"
| "truthy JNull = False"
| "truthy (JBool b) = b"
| "truthy (JNum n) = (n \<noteq> 0)"
| "truthy (JStr s) = (s \<noteq> [])"
| "truthy (JArr _) = True"
| "truthy (JObj _) = True"

definition js_or :: "json \<Rightarrow> json \<Rightarrow> json" where
  "js_or a b = (if truthy a then a else b)"

text \<open>
  \<open>jget k v\<close> is the property read \<^verbatim>\<open>v?.k\<close> for the property names the bridge uses
  (none of which is a built-in property of strings or arrays): the value stored under
  \<open>k\<close> in an object and \<^verbatim>\<open>undefined\<close> otherwise.  The unguarded read \<^verbatim>\<open>v.k\<close> differs
  only on \<^verbatim>\<open>null\<close> and \<^verbatim>\<open>undefined\<close>, where it raises a TypeError; the one place
  where the source can do that is written out in \<open>handleLine\<close>.
\<close>

fun jget :: "string \<Rightarrow> json \<Rightarrow> json" where
  "jget k (JObj kvs) = (case map_of kvs k of Some v \<Rightarrow> v | None \<Rightarrow> JUndef)"
| "jget k _ = JUndef"

fun is_string :: "json \<Rightarrow> bool" where
  "is_string (JStr _) = True"
| "is_string _ = False"

subsection \<open>Strings\<close>

definition is_space :: "char \<Rightarrow> bool" where
  "is_space c = (c \<in> set [CHR 0x20, CHR 0x09, CHR 0x0A, CHR 0x0B, CHR 0x0C, CHR 0x0D])"

definition js_trim :: "string \<Rightarrow> string" where
  "js_trim s = rev (dropWhile is_space (rev (dropWhile is_space s)))"

definition starts_with :: "string \<Rightarrow> string \<Rightarrow> bool" where
  "starts_with s p = (take (length p) s = p)"

text \<open>\<^verbatim>\<open>parts.join(sep)\<close>\<close>

fun js_join :: "string \<Rightarrow> string list \<Rightarrow> string" where
  "js_join sep [] = []"
| "js_join sep [x] = x"
| "js_join sep (x # y # ys) = x @ sep @ js_join sep (y # ys)"

text \<open>\<^verbatim>\<open>text.replace(/\s+/g, ' ')\<close>: every maximal run of white space becomes one blank.\<close>

function collapse_ws :: "string \<Rightarrow> string" where
  "collapse_ws [] = []"
| "collapse_ws (c # cs) =
     (if is_space c then CHR '' '' # collapse_ws (dropWhile is_space cs)
      else c # collapse_ws cs)"
  by pat_completeness auto
termination
  by (relation "measure length") (auto simp: le_imp_less_Suc length_dropWhile_le)

function digits_of :: "nat \<Rightarrow> string" where
  "digits_of n =
     (if n < 10 then [char_of (48 + n)]
      else digits_of (n div 10) @ [char_of (48 + n mod 10)])"
  by pat_completeness auto
termination
  by (relation "measure id") auto

definition show_int :: "int \<Rightarrow> string" where
  "show_int i = (if i < 0 then CHR ''-'' # digits_of (nat (- i)) else digits_of (nat i))"

text \<open>
  \<^verbatim>\<open>String(v)\<close>, the conversion a template literal, \<^verbatim>\<open>join\<close> and \<^verbatim>\<open>new Error(v)\<close>
  apply (integers print in decimal).
\<close>

fun js_String :: "json \<Rightarrow> string" where
  "js_String JUndef = ''undefined''"
| "js_String JNull = ''null''"
| "js_String (JBool b) = (if b then ''true'' else ''false'')"
| "js_String (JNum n) = show_int n"
| "js_String (JStr s) = s"
| "js_String (JArr xs) =
     js_join '','' (map (\<lambda>x. if x = JNull \<or> x = JUndef then [] else js_String x) xs)"
| "js_String (JObj _) = ''[object Object]''"

section \<open>The bridge state\<close>

text \<open>An \<^verbatim>\<open>Error\<close> object: its message and the \<^verbatim>\<open>events\<close> property a turn timeout attaches.\<close>

datatype error = Error (err_message: string) (err_events: "string list option")

datatype outcome = Resolved json | Rejected error

text \<open>
  What awaits a promise is the rest of the \<^verbatim>\<open>async\<close> functions suspended on it: one frame
  per \<^verbatim>\<open>await\<close>, the innermost function first.
\<close>

datatype frame =
    FInit                       \<comment> \<open>\<^verbatim>\<open>start\<close>, spawn handler: \<^verbatim>\<open>await sendRpc('initialize')\<close>\<close>
  | FLoginDone                  \<comment> \<open>\<^verbatim>\<open>start\<close>, spawn handler: \<^verbatim>\<open>await ensureLoggedIn()\<close>\<close>
  | FAccountRead                \<comment> \<open>\<^verbatim>\<open>ensureLoggedIn\<close>: \<^verbatim>\<open>await sendRpc('account/read')\<close>\<close>
  | FLoginStart                 \<comment> \<open>\<^verbatim>\<open>ensureLoggedIn\<close>: \<^verbatim>\<open>await sendRpc('account/login/start')\<close>\<close>
  | FLoginWait                  \<comment> \<open>\<^verbatim>\<open>ensureLoggedIn\<close>: \<^verbatim>\<open>await new Promise\<close> of the login waiter\<close>
  | FEnsureFirst                \<comment> \<open>\<^verbatim>\<open>ensureStarted\<close>: \<^verbatim>\<open>await this.starting\<close> inside \<^verbatim>\<open>try/finally\<close>\<close>
  | FEnsureOther                \<comment> \<open>\<^verbatim>\<open>ensureStarted\<close>: \<^verbatim>\<open>await this.starting\<close> of a start under way\<close>
  | FRunStarted string string   \<comment> \<open>\<^verbatim>\<open>runTurn(prompt, cwd)\<close>: \<^verbatim>\<open>await this.ensureStarted()\<close>\<close>
  | FGetThread string           \<comment> \<open>\<^verbatim>\<open>getThreadId(cwd)\<close>: \<^verbatim>\<open>await sendRpc('thread/start')\<close>\<close>
  | FRunThread string           \<comment> \<open>\<^verbatim>\<open>runTurn(prompt, _)\<close>: \<^verbatim>\<open>await this.getThreadId(cwd)\<close>\<close>
  | FTurnStart                  \<comment> \<open>\<^verbatim>\<open>runTurn\<close>: \<^verbatim>\<open>await sendRpc('turn/start')\<close>\<close>
  | FJob nat                    \<comment> \<open>\<^verbatim>\<open>sendCodexPrompt\<close>: the \<^verbatim>\<open>then/catch\<close> of the job's queue promise\<close>

type_synonym kont = "frame list"

datatype microtask =
    MResume kont outcome        \<comment> \<open>a settled promise resumes what awaited it\<close>
  | MStartJob nat               \<comment> \<open>the \<^verbatim>\<open>then\<close> callback of a queued job: call \<^verbatim>\<open>runTurn\<close>\<close>

text \<open>What \<^verbatim>\<open>write\<close> puts on the subprocess's standard input.\<close>

datatype wire =
    Request string int json     \<comment> \<open>\<^verbatim>\<open>{ method, id, params }\<close>\<close>
  | Notify string json          \<comment> \<open>\<^verbatim>\<open>{ method, params }\<close>\<close>

text \<open>
  An entry of \<^verbatim>\<open>this.pending\<close>.  Its \<^verbatim>\<open>resolve\<close> and \<^verbatim>\<open>reject\<close> settle the request's
  promise, that is, resume \<open>pe_waiter\<close>; the waiter is \<open>None\<close> when the promise was
  already rejected because \<^verbatim>\<open>write\<close> threw inside the executor.  The request's timer
  is live exactly while the entry is in the table: every path that calls the entry's
  \<^verbatim>\<open>resolve\<close> or \<^verbatim>\<open>reject\<close> (which clear the timer) has just deleted the entry, and the
  timer's own callback deletes it.
\<close>

record pending_entry =
  pe_method :: string
  pe_waiter :: "kont option"

text \<open>\<^verbatim>\<open>this.currentTurn\<close>; its timer is live while the turn is in the slot.\<close>

record turn =
  turnId :: json
  stdout :: string
  stderr :: string
  events :: "string list"
  waiter :: kont

text \<open>The promise \<^verbatim>\<open>start()\<close> returns, held in \<^verbatim>\<open>this.starting\<close>.\<close>

record start_promise =
  sp_outcome :: "outcome option"
  sp_waiters :: "kont list"

datatype jstatus = JWaiting | JRunning | JDone outcome

text \<open>
  One call of \<^verbatim>\<open>sendCodexPrompt\<close>: \<open>j_pred\<close> is the value of \<^verbatim>\<open>codexQueue\<close> the call
  chained on (\<open>None\<close> for \<^verbatim>\<open>Promise.resolve()\<close>, \<open>Some i\<close> for the promise of job \<open>i\<close>).
\<close>

record job =
  j_id :: nat
  j_prompt :: string
  j_cwd :: string
  j_pred :: "nat option"
  j_status :: jstatus

text \<open>
  The fields of \<^verbatim>\<open>CodexAppServer\<close>, the module variable \<^verbatim>\<open>codexQueue\<close> with the jobs
  chained through it, and what surrounds the object: the lines written to the
  subprocess, the number of \<^verbatim>\<open>spawn\<close> calls, whether a spawned child has yet to report
  \<^verbatim>\<open>'spawn'\<close> or \<^verbatim>\<open>'error'\<close>, the microtask queue, the text \<^verbatim>\<open>readFileSync\<close> finds in
  the context file, and whether an uncaught exception has ended the server.
  \<open>proc\<close> tells whether \<^verbatim>\<open>this.proc\<close> holds a child; nothing in the program kills that
  child, so its \<^verbatim>\<open>killed\<close> flag stays false.  Request identifiers are JavaScript
  numbers counted up from 1 in steps of one; such numbers are exact integers (up to
  \<open>2\<^sup>5\<^sup>3\<close>, which no run reaches), and the model takes them as integers.
\<close>

record bridge =
  proc :: bool
  rl :: bool
  nextId :: int
  pending :: "(int \<times> pending_entry) list"
  threadByCwd :: "string \<rightharpoonup> json"
  seededThreads :: "json set"
  currentTurn :: "turn option"
  starting :: "start_promise option"
  startupStderr :: string
  loginWaiter :: "kont option"
  codexQueue :: "nat option"
  jobs :: "job list"
  out :: "wire list"
  spawns :: nat
  launching :: bool
  mq :: "microtask list"
  context_file :: "string option"
  crashed :: bool

text \<open>The environment variables the bridge reads once at load time.\<close>

record config =
  CODEX_SYSTEM_MESSAGE :: string
  CODEX_CONTEXT_TEXT :: string
  CODEX_SANDBOX :: string
  CODEX_APPROVAL_POLICY :: string
  OPENAI_API_KEY :: json
  CODEX_DEBUG :: bool

text \<open>The constructor, and \<^verbatim>\<open>let codexQueue = Promise.resolve()\<close>.\<close>

definition init :: bridge where
  "init = \<lparr> proc = False, rl = False, nextId = 1, pending = [], threadByCwd = Map.empty,
     seededThreads = {}, currentTurn = None, starting = None, startupStderr = [],
     loginWaiter = None, codexQueue = None, jobs = [], out = [], spawns = 0,
     launching = False, mq = [], context_file = None, crashed = False \<rparr>"

section \<open>Settling promises\<close>

definition enqueue :: "microtask \<Rightarrow> bridge \<Rightarrow> bridge" where
  "enqueue m s = s\<lparr>mq := mq s @ [m]\<rparr>"

text \<open>Settling a promise queues the continuation that awaits it, if there is one.\<close>

definition settle :: "kont option \<Rightarrow> outcome \<Rightarrow> bridge \<Rightarrow> bridge" where
  "settle w r s = (case w of None \<Rightarrow> s | Some k \<Rightarrow> enqueue (MResume k r) s)"

definition exited :: error where
  "exited = Error ''Codex app-server exited.'' None"

section \<open>reset\<close>

text \<open>
  \<^verbatim>\<open>reset()\<close>: the pending entries are rejected in the table's insertion order, after the
  table was cleared, then the active turn, then the login waiter.
\<close>

definition reset :: "bridge \<Rightarrow> bridge" where
  "reset s =
    (let pending0 = map snd (pending s);
         s1 = s\<lparr> proc := False, rl := False, startupStderr := [],
                 threadByCwd := Map.empty, seededThreads := {}, pending := [] \<rparr>;
         s2 = fold (\<lambda>e. settle (pe_waiter e) (Rejected exited)) pending0 s1;
         s3 = (case currentTurn s2 of
                 None \<Rightarrow> s2
               | Some t \<Rightarrow> (settle (Some (waiter t)) (Rejected exited) s2)\<lparr>currentTurn := None\<rparr>);
         s4 = (case loginWaiter s3 of
                 None \<Rightarrow> s3
               | Some k \<Rightarrow> (settle (Some k) (Rejected exited) s3)\<lparr>loginWaiter := None\<rparr>)
     in s4)"

section \<open>buildTurnInput\<close>

text \<open>
  \<^verbatim>\<open>readCodexContext()\<close>; \<open>file\<close> is what reading the context file gives, \<open>None\<close> when
  it throws.  (\<^verbatim>\<open>CODEX_CONTEXT_PATH\<close> has a default that is not empty, so the test for an
  empty path never succeeds.)
\<close>

definition readCodexContext :: "config \<Rightarrow> string option \<Rightarrow> string" where
  "readCodexContext cfg file =
     (if js_trim (CODEX_CONTEXT_TEXT cfg) \<noteq> [] then js_trim (CODEX_CONTEXT_TEXT cfg)
      else case file of Some text \<Rightarrow> js_trim text | None \<Rightarrow> [])"

definition text_item :: "string \<Rightarrow> json" where
  "text_item t = JObj [(''type'', JStr ''text''), (''text'', JStr t)]"

definition seed_block :: "config \<Rightarrow> string \<Rightarrow> string" where
  "seed_block cfg context =
     js_join [CHR 0x0A, CHR 0x0A]
       ([js_trim (CODEX_SYSTEM_MESSAGE cfg)] @
        (if context \<noteq> [] then [''Anki Card Spec (follow strictly):'' @ [CHR 0x0A] @ context] else []))"

definition buildTurnInput :: "config \<Rightarrow> string \<Rightarrow> json \<Rightarrow> bridge \<Rightarrow> json list \<times> bridge" where
  "buildTurnInput cfg prompt threadId s =
     (let context = readCodexContext cfg (context_file s) in
      if threadId \<notin> seededThreads s
      then ([text_item (seed_block cfg context), text_item prompt],
            s\<lparr>seededThreads := insert threadId (seededThreads s)\<rparr>)
      else ([text_item prompt], s))"

section \<open>The request correlator\<close>

text \<open>
  \<^verbatim>\<open>this.pending\<close> is a \<^verbatim>\<open>Map\<close>: it keeps insertion order, and \<^verbatim>\<open>set\<close> on a key that is
  there replaces its value in place.
\<close>

definition tbl_set :: "int \<Rightarrow> 'v \<Rightarrow> (int \<times> 'v) list \<Rightarrow> (int \<times> 'v) list" where
  "tbl_set i v tbl =
     (if i \<in> fst ` set tbl then map (\<lambda>(j, x). if j = i then (j, v) else (j, x)) tbl
      else tbl @ [(i, v)])"

definition tbl_delete :: "int \<Rightarrow> (int \<times> 'v) list \<Rightarrow> (int \<times> 'v) list" where
  "tbl_delete i tbl = filter (\<lambda>(j, _). j \<noteq> i) tbl"

definition not_running :: error where
  "not_running = Error ''Codex app-server not running.'' None"

definition write_msg :: "wire \<Rightarrow> bridge \<Rightarrow> error + bridge" where
  "write_msg m s = (if \<not> proc s then Inl not_running else Inr (s\<lparr>out := out s @ [m]\<rparr>))"

definition sendNotification :: "string \<Rightarrow> json \<Rightarrow> bridge \<Rightarrow> error + bridge" where
  "sendNotification method params s = write_msg (Notify method params) s"

text \<open>
  \<^verbatim>\<open>sendRpc(method, params, timeoutMs)\<close>, with \<open>k\<close> what awaits the promise it returns.
  The executor allocates the identifier, arms the timer, stores the entry and writes;
  when \<^verbatim>\<open>write\<close> throws the promise is rejected at once and the entry stays behind
  (its waiter already settled) until its timer fires.
\<close>

definition sendRpc :: "string \<Rightarrow> json \<Rightarrow> kont \<Rightarrow> bridge \<Rightarrow> bridge" where
  "sendRpc method params k s =
     (let i = nextId s;
          s1 = s\<lparr>nextId := i + 1\<rparr>;
          s2 = s1\<lparr>pending := tbl_set i \<lparr>pe_method = method, pe_waiter = Some k\<rparr> (pending s1)\<rparr>
      in case write_msg (Request method i params) s2 of
           Inr s3 \<Rightarrow> s3
         | Inl e \<Rightarrow>
             enqueue (MResume k (Rejected e))
               (s2\<lparr>pending := tbl_set i \<lparr>pe_method = method, pe_waiter = None\<rparr> (pending s2)\<rparr>))"

text \<open>The callback of the timer of request \<open>i\<close>; the timer is live only while \<open>i\<close> is pending.\<close>

definition rpcTimeout :: "int \<Rightarrow> bridge \<Rightarrow> bridge" where
  "rpcTimeout i s =
     (case map_of (pending s) i of
        None \<Rightarrow> s
      | Some p \<Rightarrow>
          (let s1 = s\<lparr>pending := tbl_delete i (pending s)\<rparr> in
           if pe_method p = ''initialize'' \<and> js_trim (startupStderr s1) \<noteq> []
           then settle (pe_waiter p)
                  (Rejected (Error (''Codex app-server timeout on '' @ pe_method p @
                     ''. Stderr: '' @ js_trim (startupStderr s1)) None)) s1
           else settle (pe_waiter p)
                  (Rejected (Error (''Codex app-server timeout on '' @ pe_method p) None)) s1))"

section \<open>Notifications\<close>

definition extractTextFromParams :: "json \<Rightarrow> string" where
  "extractTextFromParams params =
     (if \<not> truthy params then []
      else if truthy (jget ''delta'' params) \<and> is_string (jget ''text'' (jget ''delta'' params))
      then js_String (jget ''text'' (jget ''delta'' params))
      else
        (let item = jget ''item'' params in
         if \<not> truthy item then []
         else if is_string (jget ''text'' item) then js_String (jget ''text'' item)
         else case jget ''content'' item of
                JArr blocks \<Rightarrow>
                  concat (map (\<lambda>block. js_String (js_or (jget ''text'' block) (JStr [])))
                            (filter (\<lambda>block. truthy block \<and> jget ''type'' block = JStr ''text'')
                               blocks))
              | _ \<Rightarrow> []))"

text \<open>The character U+2026 that ends a shortened snippet, in UTF-8.\<close>

definition ellipsis :: string where
  "ellipsis = [CHR 0xE2, CHR 0x80, CHR 0xA6]"

text \<open>\<^verbatim>\<open>summarizeCodexNotification\<close>; \<open>None\<close> is \<^verbatim>\<open>null\<close>.\<close>

definition summarizeCodexNotification :: "string \<Rightarrow> json \<Rightarrow> string option" where
  "summarizeCodexNotification method params =
     (if method = ''turn/completed'' then Some ''turn/completed''
      else if starts_with method ''item/'' then
        (let text = extractTextFromParams params in
         if text \<noteq> [] then
           (let snippet = js_trim (collapse_ws text) in
            Some (''item: '' @ (if length snippet > 120 then take 117 snippet @ ellipsis else snippet)))
         else Some ''item: (non-text)'')
      else if starts_with method ''tool/'' then
        (let name = js_or (js_or (jget ''name'' (jget ''tool'' params)) (jget ''name'' params))
                      (JStr ''tool'')
         in Some (js_trim (method @ '' '' @ js_String name)))
      else if starts_with method ''thread/'' then Some method
      else None)"

definition turn_payload :: "string \<Rightarrow> string \<Rightarrow> string list \<Rightarrow> json" where
  "turn_payload so se ev =
     JObj [(''stdout'', JStr so), (''stderr'', JStr se), (''events'', JArr (map JStr ev))]"

definition finishTurn :: "bridge \<Rightarrow> bridge" where
  "finishTurn s =
     (case currentTurn s of
        None \<Rightarrow> s
      | Some t \<Rightarrow>
          settle (Some (waiter t))
            (Resolved (turn_payload (js_trim (stdout t)) (js_trim (stderr t)) (events t)))
            (s\<lparr>currentTurn := None\<rparr>))"

text \<open>The turn identifier a notification carries: \<^verbatim>\<open>params.turnId || params.turn?.id || params.turn_id\<close>.\<close>

definition turnId_of :: "json \<Rightarrow> json" where
  "turnId_of params =
     js_or (js_or (jget ''turnId'' params) (jget ''id'' (jget ''turn'' params)))
       (jget ''turn_id'' params)"

text \<open>
  \<^verbatim>\<open>handleNotification(method, params)\<close>.  \<open>method\<close> is the truthy \<^verbatim>\<open>message.method\<close>; when
  it is not a string and a turn is active, \<^verbatim>\<open>method.startsWith\<close> raises a TypeError
  that nothing catches.  The \<^verbatim>\<open>console.log\<close> under \<^verbatim>\<open>CODEX_DEBUG\<close> changes no state.
\<close>

definition handleNotification :: "json \<Rightarrow> json \<Rightarrow> bridge \<Rightarrow> bridge" where
  "handleNotification method params s =
     (if method = JStr ''account/login/completed'' \<and> loginWaiter s \<noteq> None then
        (let w = loginWaiter s; s1 = s\<lparr>loginWaiter := None\<rparr> in
         if truthy (jget ''success'' params) then settle w (Resolved params) s1
         else settle w
                (Rejected (Error (js_String (js_or (jget ''error'' params)
                                     (JStr ''Codex login failed.''))) None)) s1)
      else case currentTurn s of
        None \<Rightarrow> s
      | Some t \<Rightarrow>
         (case method of
            JStr m \<Rightarrow>
              (let t1 = (case summarizeCodexNotification m params of
                           None \<Rightarrow> t
                         | Some summary \<Rightarrow>
                             if summary \<noteq> [] then t\<lparr>events := events t @ [summary]\<rparr> else t);
                   s1 = s\<lparr>currentTurn := Some t1\<rparr>;
                   tid = turnId_of params
               in if truthy tid \<and> truthy (turnId t1) \<and> tid \<noteq> turnId t1 then s1
                  else if m = ''turn/completed'' then finishTurn s1
                  else if starts_with m ''item/'' then
                    (let text = extractTextFromParams params in
                     if text \<noteq> [] then s1\<lparr>currentTurn := Some (t1\<lparr>stdout := stdout t1 @ text\<rparr>)\<rparr>
                     else s1)
                  else s1)
          | _ \<Rightarrow> s\<lparr>crashed := True\<rparr>))"

text \<open>
  \<^verbatim>\<open>handleLine(line)\<close>; the argument is what \<^verbatim>\<open>JSON.parse(line)\<close> gives, \<open>None\<close> when it
  throws.  A line that parses to \<^verbatim>\<open>null\<close> makes \<^verbatim>\<open>message.id\<close> raise a TypeError outside the
  \<^verbatim>\<open>try\<close>.
\<close>

definition handleLine :: "json option \<Rightarrow> bridge \<Rightarrow> bridge" where
  "handleLine line s =
     (case line of
        None \<Rightarrow> s
      | Some message \<Rightarrow>
          if message = JNull then s\<lparr>crashed := True\<rparr>
          else case jget ''id'' message of
            JNum i \<Rightarrow>
              (case map_of (pending s) i of
                 None \<Rightarrow> s
               | Some p \<Rightarrow>
                   (let s1 = s\<lparr>pending := tbl_delete i (pending s)\<rparr> in
                    if truthy (jget ''error'' message)
                    then settle (pe_waiter p)
                           (Rejected (Error (js_String (js_or (jget ''message'' (jget ''error'' message))
                                                (JStr ''Codex error''))) None)) s1
                    else settle (pe_waiter p)
                           (Resolved (js_or (jget ''result'' message) (JObj []))) s1))
          | _ \<Rightarrow>
              if truthy (jget ''method'' message)
              then handleNotification (jget ''method'' message)
                     (js_or (jget ''params'' message) (JObj [])) s
              else s)"

section \<open>The process supervisor\<close>

text \<open>
  A call of an \<^verbatim>\<open>async\<close> function either returns without suspending, and its caller goes
  on with the value, or it suspends on a promise, having stored what awaits it.  (The
  caller's \<^verbatim>\<open>await\<close> of a function that returned at once resumes in a later microtask
  of the same drain; the model lets it go on directly.)
\<close>

datatype 'a call = Returned 'a | Suspended bridge

text \<open>
  The promise of the start under way is the one in \<^verbatim>\<open>this.starting\<close>: the slot is
  filled only when it is empty, and emptied only by the first caller's \<^verbatim>\<open>finally\<close>,
  which runs after that promise has settled.  Resolving or rejecting a settled promise
  does nothing.
\<close>

definition settle_start :: "outcome \<Rightarrow> bridge \<Rightarrow> bridge" where
  "settle_start r s =
     (case starting s of
        None \<Rightarrow> s
      | Some p \<Rightarrow>
          (case sp_outcome p of
             Some _ \<Rightarrow> s
           | None \<Rightarrow>
               fold (\<lambda>k. enqueue (MResume k r)) (sp_waiters p)
                 (s\<lparr>starting := Some (p\<lparr>sp_outcome := Some r, sp_waiters := []\<rparr>)\<rparr>)))"

text \<open>\<^verbatim>\<open>await this.starting\<close> with \<open>k\<close> the rest of the caller.\<close>

definition await_starting :: "kont \<Rightarrow> bridge \<Rightarrow> bridge" where
  "await_starting k s =
     (case starting s of
        None \<Rightarrow> s
      | Some p \<Rightarrow>
          (case sp_outcome p of
             None \<Rightarrow> s\<lparr>starting := Some (p\<lparr>sp_waiters := sp_waiters p @ [k]\<rparr>)\<rparr>
           | Some r \<Rightarrow> enqueue (MResume k r) s))"

text \<open>
  \<^verbatim>\<open>start()\<close>: the executor spawns the child and registers the two handlers; the child
  reports \<^verbatim>\<open>'spawn'\<close> or \<^verbatim>\<open>'error'\<close> later.
\<close>

definition start :: "bridge \<Rightarrow> start_promise \<times> bridge" where
  "start s = (\<lparr>sp_outcome = None, sp_waiters = []\<rparr>, s\<lparr>spawns := spawns s + 1, launching := True\<rparr>)"

definition ensureStarted :: "kont \<Rightarrow> bridge \<Rightarrow> unit call" where
  "ensureStarted k s =
     (if proc s then Returned ()
      else if starting s \<noteq> None then Suspended (await_starting (FEnsureOther # k) s)
      else (let (p, s1) = start s;
                s2 = s1\<lparr>starting := Some p\<rparr>
            in Suspended (await_starting (FEnsureFirst # k) s2)))"

definition ensureLoggedIn :: "kont \<Rightarrow> bridge \<Rightarrow> bridge" where
  "ensureLoggedIn k s =
     sendRpc ''account/read'' (JObj [(''refreshToken'', JBool False)]) (FAccountRead # k) s"

text \<open>The \<^verbatim>\<open>'spawn'\<close> handler up to its first \<^verbatim>\<open>await\<close>, and the \<^verbatim>\<open>'error'\<close> handler.\<close>

definition on_spawn :: "bridge \<Rightarrow> bridge" where
  "on_spawn s =
     sendRpc ''initialize''
       (JObj [(''clientInfo'',
          JObj [(''name'', JStr ''anki_ide''), (''title'', JStr ''Anki IDE''),
                (''version'', JStr ''0.1.0'')])])
       [FInit]
       (s\<lparr>proc := True, rl := True, launching := False\<rparr>)"

definition on_spawn_error :: "string \<Rightarrow> bridge \<Rightarrow> bridge" where
  "on_spawn_error msg s = settle_start (Rejected (Error msg None)) (s\<lparr>launching := False\<rparr>)"

text \<open>The \<^verbatim>\<open>'data'\<close> handler of the child's standard error.\<close>

definition on_stderr :: "string \<Rightarrow> bridge \<Rightarrow> bridge" where
  "on_stderr chunk s =
     (let s1 = s\<lparr>startupStderr := startupStderr s @ chunk\<rparr> in
      case currentTurn s1 of
        None \<Rightarrow> s1
      | Some t \<Rightarrow> s1\<lparr>currentTurn := Some (t\<lparr>stderr := stderr t @ chunk\<rparr>)\<rparr>)"

section \<open>Threads and turns\<close>

definition getThreadId :: "config \<Rightarrow> string \<Rightarrow> kont \<Rightarrow> bridge \<Rightarrow> json call" where
  "getThreadId cfg cwd k s =
     (let cached = (case threadByCwd s cwd of Some v \<Rightarrow> v | None \<Rightarrow> JUndef) in
      if truthy cached then Returned cached
      else Suspended
        (sendRpc ''thread/start''
           (JObj [(''cwd'', JStr cwd), (''approvalPolicy'', JStr (CODEX_APPROVAL_POLICY cfg)),
                  (''sandbox'', JStr (CODEX_SANDBOX cfg))])
           (FGetThread cwd # k) s))"

text \<open>\<^verbatim>\<open>runTurn\<close> from \<^verbatim>\<open>buildTurnInput\<close> to its \<^verbatim>\<open>await sendRpc('turn/start')\<close>.\<close>

definition runTurn_send :: "config \<Rightarrow> string \<Rightarrow> json \<Rightarrow> kont \<Rightarrow> bridge \<Rightarrow> bridge" where
  "runTurn_send cfg prompt threadId k s =
     (let (input, s1) = buildTurnInput cfg prompt threadId s in
      sendRpc ''turn/start'' (JObj [(''threadId'', threadId), (''input'', JArr input)])
        (FTurnStart # k) s1)"

text \<open>\<^verbatim>\<open>runTurn\<close> after \<^verbatim>\<open>await this.ensureStarted()\<close>.\<close>

definition runTurn_started :: "config \<Rightarrow> string \<Rightarrow> string \<Rightarrow> kont \<Rightarrow> bridge \<Rightarrow> bridge" where
  "runTurn_started cfg prompt cwd k s =
     (case getThreadId cfg cwd (FRunThread prompt # k) s of
        Returned threadId \<Rightarrow> runTurn_send cfg prompt threadId k s
      | Suspended s1 \<Rightarrow> s1)"

definition runTurn :: "config \<Rightarrow> string \<Rightarrow> string \<Rightarrow> kont \<Rightarrow> bridge \<Rightarrow> bridge" where
  "runTurn cfg prompt cwd k s =
     (case ensureStarted (FRunStarted prompt cwd # k) s of
        Returned _ \<Rightarrow> runTurn_started cfg prompt cwd k s
      | Suspended s1 \<Rightarrow> s1)"

text \<open>The callbacks of the turn timer and of the login timer.\<close>

definition turnTimeout :: "bridge \<Rightarrow> bridge" where
  "turnTimeout s =
     (case currentTurn s of
        None \<Rightarrow> s
      | Some t \<Rightarrow>
          settle (Some (waiter t)) (Rejected (Error ''Codex turn timed out.'' (Some (events t))))
            (s\<lparr>currentTurn := None\<rparr>))"

definition loginTimeout :: "bridge \<Rightarrow> bridge" where
  "loginTimeout s =
     (case loginWaiter s of
        None \<Rightarrow> s
      | Some k \<Rightarrow>
          settle (Some k) (Rejected (Error ''Codex login timed out.'' None))
            (s\<lparr>loginWaiter := None\<rparr>))"

section \<open>The turn queue\<close>

text \<open>
  How the promise a job was chained on has settled, if it has: \<open>None\<close> names
  \<^verbatim>\<open>Promise.resolve()\<close>, \<open>Some i\<close> the promise of job \<open>i\<close>.
\<close>

definition job_outcome :: "nat option \<Rightarrow> bridge \<Rightarrow> outcome option" where
  "job_outcome q s =
     (case q of
        None \<Rightarrow> Some (Resolved JUndef)
      | Some i \<Rightarrow>
          (case find (\<lambda>x. j_id x = i) (jobs s) of
             Some x \<Rightarrow> (case j_status x of JDone r \<Rightarrow> Some r | _ \<Rightarrow> None)
           | None \<Rightarrow> None))"

text \<open>
  \<^verbatim>\<open>.then(() => codexApp.runTurn(prompt, cwd)).catch(...)\<close> chained on a promise that has
  settled with \<open>r\<close>: a fulfilled one runs the \<^verbatim>\<open>then\<close> callback, a rejected one skips
  it and its error reaches the \<^verbatim>\<open>catch\<close> handler.
\<close>

definition then_catch :: "nat \<Rightarrow> outcome \<Rightarrow> microtask" where
  "then_catch j r =
     (case r of Resolved _ \<Rightarrow> MStartJob j | Rejected e \<Rightarrow> MResume [FJob j] (Rejected e))"

definition set_status :: "nat \<Rightarrow> jstatus \<Rightarrow> bridge \<Rightarrow> bridge" where
  "set_status j st s =
     s\<lparr>jobs := map (\<lambda>x. if j_id x = j then x\<lparr>j_status := st\<rparr> else x) (jobs s)\<rparr>"

text \<open>
  \<^verbatim>\<open>sendCodexPrompt(prompt, cwd)\<close>: the new promise is chained on the current value of
  \<^verbatim>\<open>codexQueue\<close>, becomes its new value and is returned to the caller.  The callbacks
  of a promise that has already settled are queued at once.
\<close>

definition sendCodexPrompt :: "string \<Rightarrow> string \<Rightarrow> bridge \<Rightarrow> bridge" where
  "sendCodexPrompt prompt cwd s =
     (let j = length (jobs s);
          q = codexQueue s;
          s1 = s\<lparr>jobs := jobs s @ [\<lparr>j_id = j, j_prompt = prompt, j_cwd = cwd, j_pred = q,
                                      j_status = JWaiting\<rparr>],
                 codexQueue := Some j\<rparr>
      in case job_outcome q s of
           Some r \<Rightarrow> enqueue (then_catch j r) s1
         | None \<Rightarrow> s1)"

text \<open>The promise of job \<open>j\<close> settles with \<open>r\<close>: the jobs chained on it go on.\<close>

definition job_done :: "nat \<Rightarrow> outcome \<Rightarrow> bridge \<Rightarrow> bridge" where
  "job_done j r s =
     (let s1 = set_status j (JDone r) s in
      fold (\<lambda>x. enqueue (then_catch (j_id x) r))
        (filter (\<lambda>x. j_pred x = Some j \<and> j_status x = JWaiting) (jobs s1)) s1)"

text \<open>The \<^verbatim>\<open>catch\<close> handler's value: \<^verbatim>\<open>String(error)\<close> of an error with an empty message is \<^verbatim>\<open>Error\<close>.\<close>

definition caught :: "error \<Rightarrow> json" where
  "caught e =
     JObj [(''stdout'', JStr []),
           (''stderr'', JStr (if err_message e \<noteq> [] then err_message e else ''Error'')),
           (''events'', JArr (case err_events e of Some ev \<Rightarrow> map JStr ev | None \<Rightarrow> []))]"

section \<open>Resuming after an await\<close>

text \<open>
  \<open>resume cfg k r s\<close> runs what awaited a promise that settled with \<open>r\<close>, up to the next
  \<^verbatim>\<open>await\<close> of a pending promise.  An \<^verbatim>\<open>async\<close> function that returns or throws settles
  its own promise, which resumes its caller: the next frame.
\<close>

fun resume :: "config \<Rightarrow> kont \<Rightarrow> outcome \<Rightarrow> bridge \<Rightarrow> bridge" where
  "resume cfg [] r s = s"
| "resume cfg (FInit # k) (Resolved v) s =
     (case sendNotification ''initialized'' (JObj []) s of
        Inl e \<Rightarrow> settle_start (Rejected e) s
      | Inr s1 \<Rightarrow> ensureLoggedIn [FLoginDone] s1)"
| "resume cfg (FInit # k) (Rejected e) s = settle_start (Rejected e) s"
| "resume cfg (FLoginDone # k) (Resolved v) s = settle_start (Resolved JUndef) s"
| "resume cfg (FLoginDone # k) (Rejected e) s = settle_start (Rejected e) s"
| "resume cfg (FAccountRead # k) (Resolved authInfo) s =
     (if \<not> truthy (jget ''requiresOpenaiAuth'' authInfo) then resume cfg k (Resolved JUndef) s
      else if truthy (jget ''account'' authInfo) then resume cfg k (Resolved JUndef) s
      else if \<not> truthy (OPENAI_API_KEY cfg) then
        resume cfg k
          (Rejected (Error ''OPENAI_API_KEY is not set. Codex app-server requires authentication.'' None)) s
      else sendRpc ''account/login/start''
             (JObj [(''type'', JStr ''apiKey''), (''apiKey'', OPENAI_API_KEY cfg)])
             (FLoginStart # k) s)"
| "resume cfg (FLoginStart # k) (Resolved v) s = s\<lparr>loginWaiter := Some (FLoginWait # k)\<rparr>"
| "resume cfg (FLoginWait # k) (Resolved v) s = resume cfg k (Resolved JUndef) s"
| "resume cfg (FEnsureFirst # k) (Resolved v) s = resume cfg k (Resolved JUndef) (s\<lparr>starting := None\<rparr>)"
| "resume cfg (FEnsureFirst # k) (Rejected e) s = resume cfg k (Rejected e) (s\<lparr>starting := None\<rparr>)"
| "resume cfg (FEnsureOther # k) (Resolved v) s = resume cfg k (Resolved JUndef) s"
| "resume cfg (FRunStarted prompt cwd # k) (Resolved v) s = runTurn_started cfg prompt cwd k s"
| "resume cfg (FGetThread cwd # k) (Resolved result) s =
     (let threadId = jget ''id'' (jget ''thread'' result) in
      if \<not> truthy threadId then
        resume cfg k (Rejected (Error ''Codex app-server did not return a thread id.'' None)) s
      else resume cfg k (Resolved threadId) (s\<lparr>threadByCwd := (threadByCwd s)(cwd \<mapsto> threadId)\<rparr>))"
| "resume cfg (FRunThread prompt # k) (Resolved threadId) s = runTurn_send cfg prompt threadId k s"
| "resume cfg (FTurnStart # k) (Resolved result) s =
     (let tid = js_or (jget ''id'' (jget ''turn'' result)) JNull in
      if currentTurn s \<noteq> None then
        resume cfg k (Rejected (Error ''Codex turn already in progress.'' None)) s
      else s\<lparr>currentTurn := Some \<lparr>turnId = tid, stdout = [], stderr = [], events = [], waiter = k\<rparr>\<rparr>)"
| "resume cfg (FJob j # k) (Resolved v) s = job_done j (Resolved v) s"
| "resume cfg (FJob j # k) (Rejected e) s =
     job_done j (Resolved (caught e)) (s\<lparr>codexQueue := None\<rparr>)"
| "resume cfg (f # k) (Rejected e) s = resume cfg k (Rejected e) s"

section \<open>The event loop\<close>

definition run_microtask :: "config \<Rightarrow> microtask \<Rightarrow> bridge \<Rightarrow> bridge" where
  "run_microtask cfg m s =
     (case m of
        MResume k r \<Rightarrow> resume cfg k r s
      | MStartJob j \<Rightarrow>
          (case find (\<lambda>x. j_id x = j) (jobs s) of
             None \<Rightarrow> s
           | Some x \<Rightarrow> runTurn cfg (j_prompt x) (j_cwd x) [FJob j] (set_status j JRunning s)))"

text \<open>
  What the event loop delivers: a request to \<^verbatim>\<open>/api/codex\<close>, the child's \<^verbatim>\<open>'spawn'\<close>,
  \<^verbatim>\<open>'error'\<close> and \<^verbatim>\<open>'close'\<close>, a line or a chunk of its output, a timer, a change of the
  context file, or (\<open>Tick\<close>) the next microtask.  Node runs every queued microtask
  before the next event, and an event whose listener or timer is not there does
  nothing.  After an uncaught exception nothing runs.  A microtask of the model runs a
  continuation up to its next suspension, where JavaScript takes one microtask for
  each promise on the way.
\<close>

datatype event =
    Submit string string
  | SpawnOk
  | SpawnError string
  | Line "json option"
  | RpcTimeout int
  | TurnTimeout
  | LoginTimeout
  | StderrData string
  | Close
  | ContextFile "string option"
  | Tick

definition step :: "config \<Rightarrow> event \<Rightarrow> bridge \<Rightarrow> bridge" where
  "step cfg e s =
     (if crashed s then s
      else case mq s of
        m # ms \<Rightarrow> (if e = Tick then run_microtask cfg m (s\<lparr>mq := ms\<rparr>) else s)
      | [] \<Rightarrow>
         (case e of
            Submit prompt cwd \<Rightarrow> sendCodexPrompt prompt cwd s
          | SpawnOk \<Rightarrow> if launching s then on_spawn s else s
          | SpawnError msg \<Rightarrow> if launching s then on_spawn_error msg s else s
          | Line l \<Rightarrow> if rl s then handleLine l s else s
          | RpcTimeout i \<Rightarrow> rpcTimeout i s
          | TurnTimeout \<Rightarrow> turnTimeout s
          | LoginTimeout \<Rightarrow> loginTimeout s
          | StderrData chunk \<Rightarrow> if proc s then on_stderr chunk s else s
          | Close \<Rightarrow> if proc s then reset s else s
          | ContextFile f \<Rightarrow> s\<lparr>context_file := f\<rparr>
          | Tick \<Rightarrow> s))"

definition run :: "config \<Rightarrow> event list \<Rightarrow> bridge \<Rightarrow> bridge" where
  "run cfg es s = fold (step cfg) es s"
section \<open>Auxiliary notions for the statements\<close>

text \<open>
  The continuations \<^verbatim>\<open>reset()\<close> has to reject: those of the pending requests whose
  promise is not yet settled, in the table's order, then that of the active turn, then
  that of the login waiter.
\<close>

definition waiters :: "bridge \<Rightarrow> kont list" where
  "waiters s =
     List.map_filter pe_waiter (map snd (pending s)) @
     (case currentTurn s of None \<Rightarrow> [] | Some t \<Rightarrow> [waiter t]) @
     (case loginWaiter s of None \<Rightarrow> [] | Some k \<Rightarrow> [k])"

text \<open>
  A sequence of \<^verbatim>\<open>buildTurnInput(prompt, threadId)\<close> calls on one bridge, with the list
  each call returns.
\<close>

fun build_all :: "config \<Rightarrow> (string \<times> json) list \<Rightarrow> bridge \<Rightarrow> json list list \<times> bridge" where
  "build_all cfg [] s = ([], s)"
| "build_all cfg ((prompt, threadId) # calls) s =
     (let (input, s1) = buildTurnInput cfg prompt threadId s;
          (inputs, s2) = build_all cfg calls s1
      in (input # inputs, s2))"

subsection \<open>Concrete inputs\<close>

definition cfg0 :: config where
  "cfg0 = \<lparr> CODEX_SYSTEM_MESSAGE = '' sys '', CODEX_CONTEXT_TEXT = '' ctx'',
            CODEX_SANDBOX = ''workspace-write'', CODEX_APPROVAL_POLICY = ''never'',
            OPENAI_API_KEY = JUndef, CODEX_DEBUG = False \<rparr>"

definition calls0 :: "(string \<times> json) list" where
  "calls0 = [(''p1'', JStr ''t1''), (''p2'', JStr ''t2''), (''p3'', JStr ''t1'')]"

definition seed0 :: string where
  "seed0 = ''sys'' @ [CHR 0x0A, CHR 0x0A] @ ''Anki Card Spec (follow strictly):'' @ [CHR 0x0A] @ ''ctx''"

text \<open>A bridge with one request, a turn and a login all outstanding.\<close>

definition busy0 :: bridge where
  "busy0 = init \<lparr> proc := True, rl := True, nextId := 8,
       pending := [(7, \<lparr>pe_method = ''thread/start'', pe_waiter = Some [FGetThread ''/w'', FRunThread ''p'', FJob 1]\<rparr>)],
       threadByCwd := [''/v'' \<mapsto> JStr ''t1''], seededThreads := {JStr ''t1''},
       currentTurn := Some \<lparr>turnId = JStr ''u1'', stdout = ''so far'', stderr = [], events = [],
                            waiter = [FJob 0]\<rparr>,
       loginWaiter := Some [FLoginWait, FLoginDone] \<rparr>"

text \<open>An item notification of another turn than the one \<open>busy0\<close> runs.\<close>

definition stale0 :: json where
  "stale0 = JObj [(''turnId'', JStr ''u0''), (''item'', JObj [(''text'', JStr ''stale  text'')])]"

definition turn0 :: turn where
  "turn0 = \<lparr>turnId = JStr ''u1'', stdout = ''so far'', stderr = [], events = [], waiter = [FJob 0]\<rparr>"

subsection \<open>Concrete runs\<close>

text \<open>
  An event the event loop can deliver in a state: a microtask while the queue holds
  one, anything else only once the queue is empty; the child's \<^verbatim>\<open>'spawn'\<close> or \<^verbatim>\<open>'error'\<close>
  after a \<^verbatim>\<open>spawn\<close> call, a line while the reader is open, a timer while it is live,
  output and exit of a child that runs.  A run is deliverable when each of its events
  is, in the state the events before it lead to.
\<close>

fun deliverable :: "event \<Rightarrow> bridge \<Rightarrow> bool" where
  "deliverable Tick s = (\<not> crashed s \<and> mq s \<noteq> [])"
| "deliverable (Submit prompt cwd) s = (\<not> crashed s \<and> mq s = [])"
| "deliverable SpawnOk s = (\<not> crashed s \<and> mq s = [] \<and> launching s)"
| "deliverable (SpawnError msg) s = (\<not> crashed s \<and> mq s = [] \<and> launching s)"
| "deliverable (Line l) s = (\<not> crashed s \<and> mq s = [] \<and> rl s)"
| "deliverable (RpcTimeout i) s = (\<not> crashed s \<and> mq s = [] \<and> i \<in> set (map fst (pending s)))"
| "deliverable TurnTimeout s = (\<not> crashed s \<and> mq s = [] \<and> currentTurn s \<noteq> None)"
| "deliverable LoginTimeout s = (\<not> crashed s \<and> mq s = [] \<and> loginWaiter s \<noteq> None)"
| "deliverable (StderrData chunk) s = (\<not> crashed s \<and> mq s = [] \<and> proc s)"
| "deliverable Close s = (\<not> crashed s \<and> mq s = [] \<and> proc s)"
| "deliverable (ContextFile f) s = (\<not> crashed s \<and> mq s = [])"

fun deliverable_run :: "config \<Rightarrow> event list \<Rightarrow> bridge \<Rightarrow> bool" where
  "deliverable_run cfg [] s = True"
| "deliverable_run cfg (e # es) s = (deliverable e s \<and> deliverable_run cfg es (step cfg e s))"

definition ok :: "int \<Rightarrow> json \<Rightarrow> event" where
  "ok i result = Line (Some (JObj [(''id'', JNum i), (''result'', result)]))"

definition err :: "int \<Rightarrow> string \<Rightarrow> event" where
  "err i msg = Line (Some (JObj [(''id'', JNum i), (''error'', JObj [(''message'', JStr msg)])]))"

text \<open>
  Two prompts are submitted; the subprocess starts, needs no login and creates thread
  \<^verbatim>\<open>t1\<close>; it answers the first turn-start request with an error.  The second prompt's
  turn starts, and while it is unanswered a third prompt is submitted.
\<close>

definition run_serial :: "event list" where
  "run_serial =
     [Submit ''a'' ''/w'', Tick, Submit ''b'' ''/w'', SpawnOk, ok 1 (JObj []), Tick,
      ok 2 (JObj []), Tick, Tick, ok 3 (JObj [(''thread'', JObj [(''id'', JStr ''t1'')])]), Tick,
      err 4 ''boom'', Tick, Tick, Submit ''d'' ''/w'', Tick]"

text \<open>The run above, followed by the answers to the two turn-start requests in flight.\<close>

definition run_overlap :: "event list" where
  "run_overlap =
     run_serial @
     [ok 5 (JObj [(''turn'', JObj [(''id'', JStr ''u5'')])]), Tick,
      ok 6 (JObj [(''turn'', JObj [(''id'', JStr ''u6'')])]), Tick]"

text \<open>A prompt whose start fails because the executable cannot be launched.\<close>

definition run_enoent :: "event list" where
  "run_enoent = [Submit ''a'' ''/w'', Tick, SpawnError ''spawn codex ENOENT'', Tick]"

text \<open>A prompt is submitted and the child has spawned; \<^verbatim>\<open>initialize\<close> is unanswered.\<close>

definition run_spawned :: "event list" where
  "run_spawned = [Submit ''a'' ''/w'', Tick, SpawnOk]"

text \<open>
  The \<^verbatim>\<open>initialize\<close> request of the first prompt times out; a second prompt is
  submitted afterwards.
\<close>

definition run_init_timeout :: "event list" where
  "run_init_timeout = run_spawned @ [RpcTimeout 1, Tick, Tick, Submit ''b'' ''/w'', Tick]"

text \<open>
  Two prompts are submitted and the subprocess exits during the first turn-start
  request; the second prompt spawns a new child, and while its \<^verbatim>\<open>initialize\<close> is
  unanswered a third prompt is submitted.
\<close>

definition run_restart :: "event list" where
  "run_restart =
     [Submit ''a'' ''/w'', Tick, Submit ''b'' ''/w'', SpawnOk, ok 1 (JObj []), Tick,
      ok 2 (JObj []), Tick, Tick, ok 3 (JObj [(''thread'', JObj [(''id'', JStr ''t1'')])]), Tick,
      Close, Tick, Tick, SpawnOk, Submit ''d'' ''/w'', Tick]"

text \<open>The frames of \<^verbatim>\<open>runTurn\<close> and of the functions it awaits, \<^verbatim>\<open>start\<close>'s own apart.\<close>

fun turn_frame :: "frame \<Rightarrow> bool" where
  "turn_frame FInit = False"
| "turn_frame FLoginDone = False"
| "turn_frame (FJob _) = False"
| "turn_frame _ = True"

subsection \<open>Request identifiers\<close>

text \<open>The identifiers of the requests written to the subprocess, in the order written.\<close>

fun req_ids :: "wire list \<Rightarrow> int list" where
  "req_ids [] = []"
| "req_ids (Request method i params # ws) = i # req_ids ws"
| "req_ids (Notify method params # ws) = req_ids ws"

text \<open>
  What the correlator keeps: the counter, the keys of the pending table and the
  identifiers written.  \<open>alloc w\<close> is what one \<^verbatim>\<open>sendRpc\<close> does to them, \<open>w\<close> telling
  whether the write went through.
\<close>

definition core :: "bridge \<Rightarrow> int \<times> int list \<times> int list" where
  "core s = (nextId s, map fst (pending s), req_ids (out s))"

definition alloc :: "bool \<Rightarrow> int \<times> int list \<times> int list \<Rightarrow> int \<times> int list \<times> int list" where
  "alloc w c =
     (case c of (n, ks, rs) \<Rightarrow>
        (n + 1, (if n \<in> set ks then ks else ks @ [n]), (if w then rs @ [n] else rs)))"

text \<open>
  The counter is above every pending key and every identifier written, the pending keys
  are distinct and the identifiers were written in strictly increasing order.
\<close>

definition fresh :: "int \<times> int list \<times> int list \<Rightarrow> bool" where
  "fresh c =
     (case c of (n, ks, rs) \<Rightarrow>
        distinct ks \<and> list_all (\<lambda>k. k < n) ks \<and> sorted_wrt (<) rs \<and> list_all (\<lambda>r. r < n) rs)"

text \<open>The request a line answers: the number under \<^verbatim>\<open>id\<close> of a parsed message.\<close>

definition answered :: "json option \<Rightarrow> int option" where
  "answered line =
     (case line of
        None \<Rightarrow> None
      | Some message \<Rightarrow> (case jget ''id'' message of JNum i \<Rightarrow> Some i | _ \<Rightarrow> None))"

text \<open>Every pending key is at least \<open>b\<close>, and so is the counter.\<close>

definition above :: "int \<Rightarrow> int \<times> int list \<times> int list \<Rightarrow> bool" where
  "above b c = (case c of (n, ks, rs) \<Rightarrow> b \<le> n \<and> list_all (\<lambda>k. b \<le> k) ks)"

text \<open>The child exits while \<^verbatim>\<open>initialize\<close> is unanswered.\<close>

definition run_exit :: "event list" where
  "run_exit = run_spawned @ [Close]"

text \<open>A configuration with a credential, and an account-status answer that asks for a login.\<close>

definition cfg_key :: config where
  "cfg_key = cfg0\<lparr>OPENAI_API_KEY := JStr ''sk-test''\<rparr>"

definition needs_login :: json where
  "needs_login = JObj [(''requiresOpenaiAuth'', JBool True), (''account'', JNull)]"

definition spawned0 :: bridge where
  "spawned0 = init\<lparr>proc := True, rl := True, nextId := 3\<rparr>"

definition waiting_login :: bridge where
  "waiting_login = spawned0\<lparr>loginWaiter := Some [FLoginWait, FLoginDone]\<rparr>"

definition thread_reply :: json where
  "thread_reply = JObj [(''thread'', JObj [(''id'', JStr ''t1'')])]"

subsection \<open>Thread bindings\<close>

text \<open>The continuations the microtask queue holds.\<close>

fun mq_konts :: "microtask list \<Rightarrow> kont list" where
  "mq_konts [] = []"
| "mq_konts (MResume k r # ms) = k # mq_konts ms"
| "mq_konts (MStartJob j # ms) = mq_konts ms"

text \<open>Every continuation the bridge holds: what is suspended on some promise or about to resume.\<close>

definition konts :: "bridge \<Rightarrow> kont list" where
  "konts s =
     waiters s @ (case starting s of None \<Rightarrow> [] | Some p \<Rightarrow> sp_waiters p) @ mq_konts (mq s)"

text \<open>
  The directory \<open>cwd\<close> is bound to the thread \<open>t\<close> and no \<^verbatim>\<open>getThreadId(cwd)\<close> call is
  suspended on its thread-start request.
\<close>

definition clean :: "string \<Rightarrow> bridge \<Rightarrow> bool" where
  "clean cwd s = list_all (\<lambda>k. FGetThread cwd \<notin> set k) (konts s)"

definition settled_thread :: "string \<Rightarrow> json \<Rightarrow> bridge \<Rightarrow> bool" where
  "settled_thread cwd t s = (threadByCwd s cwd = Some t \<and> truthy t \<and> clean cwd s)"

text \<open>The thread-start requests for \<open>cwd\<close> among the lines written.\<close>

fun thread_starts :: "string \<Rightarrow> wire list \<Rightarrow> wire list" where
  "thread_starts cwd [] = []"
| "thread_starts cwd (Request method i params # ws) =
     (if method = ''thread/start'' \<and> jget ''cwd'' params = JStr cwd
      then Request method i params # thread_starts cwd ws
      else thread_starts cwd ws)"
| "thread_starts cwd (Notify method params # ws) = thread_starts cwd ws"

text \<open>The binding of \<open>cwd\<close> together with the thread-start requests written for it.\<close>

definition tproj :: "string \<Rightarrow> bridge \<Rightarrow> json option \<times> wire list" where
  "tproj cwd s = (threadByCwd s cwd, thread_starts cwd (out s))"

definition thread_kept :: "string \<Rightarrow> json \<Rightarrow> wire list \<Rightarrow> bridge \<Rightarrow> bool" where
  "thread_kept cwd t n s = (tproj cwd s = (Some t, n) \<and> truthy t \<and> clean cwd s)"

text \<open>
  The first prompt fails as in \<open>run_serial\<close>; the second and the third prompt are for
  the directory \<^verbatim>\<open>/v\<close>, which has no thread yet.  The third is submitted while the
  thread-start request of the second is unanswered; then both requests are answered.
\<close>

definition run_threads :: "event list" where
  "run_threads =
     [Submit ''a'' ''/w'', Tick, Submit ''b'' ''/v'', SpawnOk, ok 1 (JObj []), Tick,
      ok 2 (JObj []), Tick, Tick, ok 3 (JObj [(''thread'', JObj [(''id'', JStr ''t1'')])]), Tick,
      err 4 ''boom'', Tick, Tick, Submit ''d'' ''/v'', Tick,
      ok 5 (JObj [(''thread'', JObj [(''id'', JStr ''t5'')])]), Tick,
      ok 6 (JObj [(''thread'', JObj [(''id'', JStr ''t6'')])]), Tick]"

text \<open>A running bridge on which \<^verbatim>\<open>/w\<close> is bound to the thread \<^verbatim>\<open>t1\<close>.\<close>

definition settled0 :: bridge where
  "settled0 = spawned0\<lparr>threadByCwd := [''/w'' \<mapsto> JStr ''t1'']\<rparr>"

subsection \<open>Outcomes of the caller's promise\<close>

fun not_rejected :: "jstatus \<Rightarrow> bool" where
  "not_rejected (JDone (Rejected e)) = False"
| "not_rejected _ = True"

text \<open>No promise returned by \<^verbatim>\<open>sendCodexPrompt\<close> has been rejected.\<close>

definition never_rejected :: "bridge \<Rightarrow> bool" where
  "never_rejected s = list_all (\<lambda>x. not_rejected (j_status x)) (jobs s)"

section \<open>Basic facts\<close>

lemma settle_eq:
  "settle w r s = s\<lparr>mq := mq s @ (case w of None \<Rightarrow> [] | Some k \<Rightarrow> [MResume k r])\<rparr>"
  by (simp add: settle_def enqueue_def split: option.split)

lemma fold_settle:
  "fold (\<lambda>e. settle (pe_waiter e) r) es s =
     s\<lparr>mq := mq s @ map (\<lambda>k. MResume k r) (List.map_filter pe_waiter es)\<rparr>"
proof (induction es arbitrary: s)
  case Nil
  then show ?case by (simp add: map_filter_simps)
next
  case (Cons e es)
  then show ?case by (simp add: settle_eq map_filter_simps split: option.split)
qed

lemma reset_eq:
  "reset s = s\<lparr> proc := False, rl := False, startupStderr := [], threadByCwd := Map.empty,
       seededThreads := {}, pending := [], currentTurn := None, loginWaiter := None,
       mq := mq s @ map (\<lambda>k. MResume k (Rejected exited)) (waiters s) \<rparr>"
  by (simp add: reset_def Let_def fold_settle settle_eq waiters_def split: option.split)

section \<open>Seed-once\<close>

lemma buildTurnInput_fst:
  "fst (buildTurnInput cfg p t s) =
     (if t \<in> seededThreads s then [text_item p]
      else [text_item (seed_block cfg (readCodexContext cfg (context_file s))), text_item p])"
  by (simp add: buildTurnInput_def Let_def)

lemma buildTurnInput_snd:
  "snd (buildTurnInput cfg p t s) = s\<lparr>seededThreads := insert t (seededThreads s)\<rparr>"
  by (simp add: buildTurnInput_def Let_def insert_absorb)

lemma build_all_Cons:
  "fst (build_all cfg ((p, t) # calls) s) =
     fst (buildTurnInput cfg p t s) # fst (build_all cfg calls (snd (buildTurnInput cfg p t s)))"
  by (simp add: Let_def split: prod.split)

lemma build_all_nth:
  "i < length calls \<Longrightarrow>
   fst (build_all cfg calls s) ! i =
     (if snd (calls ! i) \<in> seededThreads s \<union> snd ` set (take i calls)
      then [text_item (fst (calls ! i))]
      else [text_item (seed_block cfg (readCodexContext cfg (context_file s))),
            text_item (fst (calls ! i))])"
proof (induction calls arbitrary: s i)
  case Nil
  then show ?case by simp
next
  case (Cons c calls)
  obtain p t where c: "c = (p, t)" by (cases c)
  show ?case
  proof (cases i)
    case 0
    then show ?thesis
      by (simp add: c build_all_Cons buildTurnInput_fst del: build_all.simps)
  next
    case (Suc j)
    with Cons.prems have j: "j < length calls" by simp
    have "fst (build_all cfg (c # calls) s) ! i =
          fst (build_all cfg calls (snd (buildTurnInput cfg p t s))) ! j"
      by (simp add: c Suc build_all_Cons del: build_all.simps)
    also have "\<dots> =
      (if snd (calls ! j) \<in> insert t (seededThreads s) \<union> snd ` set (take j calls)
       then [text_item (fst (calls ! j))]
       else [text_item (seed_block cfg (readCodexContext cfg (context_file s))),
             text_item (fst (calls ! j))])"
      by (simp add: Cons.IH[OF j] buildTurnInput_snd)
    finally show ?thesis by (simp add: c Suc)
  qed
qed

lemma seeded_enqueue [simp]: "seededThreads (enqueue m s) = seededThreads s"
  by (simp add: enqueue_def)


lemma seeded_fold_enqueue [simp]: "seededThreads (fold (\<lambda>x. enqueue (g x)) xs s) = seededThreads s"
  by (induction xs arbitrary: s) simp_all


lemma seeded_settle [simp]: "seededThreads (settle w r s) = seededThreads s"
  by (simp add: settle_def split: option.split)


lemma seeded_settle_start [simp]: "seededThreads (settle_start r s) = seededThreads s"
  by (simp add: settle_start_def split: option.split)


lemma seeded_await_starting [simp]: "seededThreads (await_starting k s) = seededThreads s"
  by (simp add: await_starting_def split: option.split)


lemma seeded_sendRpc [simp]: "seededThreads (sendRpc m p k s) = seededThreads s"
  by (simp add: sendRpc_def write_msg_def Let_def)


lemma seeded_job_done [simp]: "seededThreads (job_done j r s) = seededThreads s"
  by (simp add: job_done_def Let_def set_status_def)


lemma seeded_runTurn_send:
  "seededThreads s \<subseteq> seededThreads (runTurn_send cfg p t k s)"
  by (auto simp add: runTurn_send_def buildTurnInput_def Let_def)


lemma seeded_runTurn_started:
  "seededThreads s \<subseteq> seededThreads (runTurn_started cfg p cwd k s)"
  using seeded_runTurn_send[of s cfg p _ k]
  by (simp add: runTurn_started_def getThreadId_def Let_def)


lemma seeded_runTurn: "seededThreads s \<subseteq> seededThreads (runTurn cfg p cwd k s)"
  using seeded_runTurn_started[of s cfg p cwd k]
  by (simp add: runTurn_def ensureStarted_def start_def Let_def)


lemma seeded_resume: "seededThreads s \<subseteq> seededThreads (resume cfg k r s)"
proof (induction cfg k r s rule: resume.induct)
  case (12 cfg prompt cwd k v s)
  then show ?case using seeded_runTurn_started by simp
next
  case (14 cfg prompt k threadId s)
  then show ?case using seeded_runTurn_send by simp
qed (simp_all add: sendNotification_def write_msg_def ensureLoggedIn_def Let_def)


lemma seeded_run_microtask: "seededThreads s \<subseteq> seededThreads (run_microtask cfg m s)"
proof (cases m)
  case (MResume k r)
  then show ?thesis using seeded_resume[of s cfg k r] by (simp add: run_microtask_def)
next
  case (MStartJob j)
  show ?thesis
  proof (cases "find (\<lambda>x. j_id x = j) (jobs s)")
    case None
    with MStartJob show ?thesis by (simp add: run_microtask_def)
  next
    case (Some x)
    with MStartJob show ?thesis
      using seeded_runTurn[of "set_status j JRunning s" cfg "j_prompt x" "j_cwd x" "[FJob j]"]
      by (simp add: run_microtask_def set_status_def)
  qed
qed


lemma seeded_handleNotification [simp]:
  "seededThreads (handleNotification method params s) = seededThreads s"
  by (simp add: handleNotification_def finishTurn_def Let_def split: option.split json.split)


lemma seeded_handleLine [simp]: "seededThreads (handleLine line s) = seededThreads s"
  by (simp add: handleLine_def Let_def split: option.split json.split)


lemma seeded_step: "e \<noteq> Close \<Longrightarrow> seededThreads s \<subseteq> seededThreads (step cfg e s)"
proof (cases "crashed s")
  case True
  then show ?thesis by (simp add: step_def)
next
  case False
  note nc = this
  assume ne: "e \<noteq> Close"
  show ?thesis
  proof (cases "mq s")
    case (Cons m ms)
    with nc seeded_run_microtask[of "s\<lparr>mq := ms\<rparr>" cfg m] show ?thesis
      by (simp add: step_def)
  next
    case Nil
    with nc ne show ?thesis
      by (cases e)
         (simp_all add: step_def sendCodexPrompt_def on_spawn_def on_spawn_error_def
            rpcTimeout_def turnTimeout_def loginTimeout_def on_stderr_def Let_def
            split: option.split)
  qed
qed


lemma seeded_run: "Close \<notin> set es \<Longrightarrow> seededThreads s \<subseteq> seededThreads (run cfg es s)"
proof (induction es arbitrary: s)
  case Nil
  then show ?case by (simp add: run_def)
next
  case (Cons e es)
  then have "seededThreads s \<subseteq> seededThreads (step cfg e s)" by (intro seeded_step) auto
  also have "\<dots> \<subseteq> seededThreads (run cfg es (step cfg e s))" using Cons by simp
  finally show ?case by (simp add: run_def)
qed


text \<open>
  C2 (seed-once).  A \<^verbatim>\<open>buildTurnInput\<close> call for a thread that is not in the seeded set
  returns the seed block followed by the literal prompt; the seed block is the trimmed
  system message, followed, when the context is not empty, by a blank line, the heading
  and the context.  After a call for a thread, whatever the bridge goes through next
  short of the subprocess's exit, every call for that thread returns the literal
  prompt alone.  In particular, on a bridge whose seeded set is empty (a new bridge, or
  one just reset), the call at position \<open>i\<close> of any sequence of calls returns seed and
  prompt when its thread occurs in no earlier call, and the prompt alone when it does.
\<close>

theorem seed_once:
  "(t \<notin> seededThreads s \<longrightarrow>
      fst (buildTurnInput cfg p t s) =
        [text_item (js_trim (CODEX_SYSTEM_MESSAGE cfg) @
           (let context = readCodexContext cfg (context_file s) in
            if context = [] then []
            else [CHR 0x0A, CHR 0x0A] @ ''Anki Card Spec (follow strictly):'' @
                 [CHR 0x0A] @ context)),
         text_item p])
   \<and> (Close \<notin> set es \<longrightarrow>
      fst (buildTurnInput cfg p' t (run cfg es (snd (buildTurnInput cfg p t s)))) = [text_item p'])
   \<and> (seededThreads s = {} \<and> i < length calls \<longrightarrow>
      fst (build_all cfg calls s) ! i =
        (if snd (calls ! i) \<in> snd ` set (take i calls)
         then [text_item (fst (calls ! i))]
         else [text_item (seed_block cfg (readCodexContext cfg (context_file s))),
               text_item (fst (calls ! i))]))"
proof (intro conjI)
  show "t \<notin> seededThreads s \<longrightarrow>
      fst (buildTurnInput cfg p t s) =
        [text_item (js_trim (CODEX_SYSTEM_MESSAGE cfg) @
           (let context = readCodexContext cfg (context_file s) in
            if context = [] then []
            else [CHR 0x0A, CHR 0x0A] @ ''Anki Card Spec (follow strictly):'' @
                 [CHR 0x0A] @ context)),
         text_item p]"
    by (simp add: buildTurnInput_fst seed_block_def Let_def)
  show "Close \<notin> set es \<longrightarrow>
      fst (buildTurnInput cfg p' t (run cfg es (snd (buildTurnInput cfg p t s)))) = [text_item p']"
  proof
    assume "Close \<notin> set es"
    then have "seededThreads (snd (buildTurnInput cfg p t s))
        \<subseteq> seededThreads (run cfg es (snd (buildTurnInput cfg p t s)))"
      by (rule seeded_run)
    moreover have "t \<in> seededThreads (snd (buildTurnInput cfg p t s))"
      by (simp add: buildTurnInput_snd)
    ultimately have "t \<in> seededThreads (run cfg es (snd (buildTurnInput cfg p t s)))" by blast
    then show "fst (buildTurnInput cfg p' t (run cfg es (snd (buildTurnInput cfg p t s)))) =
        [text_item p']"
      by (simp add: buildTurnInput_fst)
  qed
  show "seededThreads s = {} \<and> i < length calls \<longrightarrow>
      fst (build_all cfg calls s) ! i =
        (if snd (calls ! i) \<in> snd ` set (take i calls)
         then [text_item (fst (calls ! i))]
         else [text_item (seed_block cfg (readCodexContext cfg (context_file s))),
               text_item (fst (calls ! i))])"
    by (simp add: build_all_nth)
qed

theorem seed_once_witness:
  "JStr ''t1'' \<notin> seededThreads init \<and> seededThreads init = {} \<and> (2::nat) < length calls0 \<and>
   Close \<notin> set [Submit ''a'' ''/w'', Tick, SpawnOk] \<and>
   fst (buildTurnInput cfg0 ''p1'' (JStr ''t1'') init) = [text_item seed0, text_item ''p1''] \<and>
   fst (buildTurnInput cfg0 ''p3'' (JStr ''t1'')
          (run cfg0 [Submit ''a'' ''/w'', Tick, SpawnOk]
             (snd (buildTurnInput cfg0 ''p1'' (JStr ''t1'') init)))) = [text_item ''p3''] \<and>
   fst (build_all cfg0 calls0 init) =
     [[text_item seed0, text_item ''p1''], [text_item seed0, text_item ''p2''], [text_item ''p3'']]"
  using seed_once[of "JStr ''t1''" init cfg0 "''p1''" "[Submit ''a'' ''/w'', Tick, SpawnOk]" "''p3''" 2 calls0]
  by (simp add: init_def cfg0_def calls0_def seed0_def buildTurnInput_def readCodexContext_def
        seed_block_def js_trim_def is_space_def Let_def)

section \<open>Crash reset\<close>

text \<open>
  C4 (crash reset).  The \<^verbatim>\<open>'close'\<close> event of the subprocess runs \<^verbatim>\<open>reset\<close>.  From any
  state, \<^verbatim>\<open>reset\<close> rejects the waiter of every pending request, then that of the active
  turn and that of the login waiter where they exist, each with the error
  \<^verbatim>\<open>Codex app-server exited.\<close>, and leaves the pending table, the thread map and the
  seeded set empty and the turn and login slots null.
\<close>

theorem reset_rejects_and_clears:
  "mq (reset s) = mq s @ map (\<lambda>k. MResume k (Rejected exited)) (waiters s)
   \<and> pending (reset s) = [] \<and> threadByCwd (reset s) = Map.empty \<and> seededThreads (reset s) = {}
   \<and> currentTurn (reset s) = None \<and> loginWaiter (reset s) = None
   \<and> (proc s \<and> mq s = [] \<and> \<not> crashed s \<longrightarrow> step cfg Close s = reset s)"
  by (simp add: reset_eq step_def)

theorem reset_rejects_and_clears_witness:
  "proc busy0 \<and> mq busy0 = [] \<and> \<not> crashed busy0 \<and>
   mq (step cfg0 Close busy0) =
     [MResume [FGetThread ''/w'', FRunThread ''p'', FJob 1] (Rejected exited),
      MResume [FJob 0] (Rejected exited),
      MResume [FLoginWait, FLoginDone] (Rejected exited)] \<and>
   pending (step cfg0 Close busy0) = [] \<and> threadByCwd (step cfg0 Close busy0) = Map.empty \<and>
   seededThreads (step cfg0 Close busy0) = {} \<and> currentTurn (step cfg0 Close busy0) = None \<and>
   loginWaiter (step cfg0 Close busy0) = None"
  using reset_rejects_and_clears[of busy0 cfg0]
  by (simp add: busy0_def init_def waiters_def map_filter_simps)

section \<open>Notification isolation\<close>

text \<open>
  C3 (notification isolation), as the code has it.  While a turn is active, a
  notification that carries a turn identifier differing from the active turn's
  recorded one (both truthy) does not touch the accumulated output, the diagnostics or
  the recorded identifier and does not complete the turn; but its summary, when
  \<^verbatim>\<open>summarizeCodexNotification\<close> gives one, is appended to the turn's event log, since
  the summary is pushed before the identifiers are compared.  Nothing else in the
  bridge changes.  (A login-completed notification that a login waiter consumes leaves
  the turn entirely unchanged.)
\<close>

theorem stale_notification_only_logged:
  assumes "currentTurn s = Some t"
    and "truthy (turnId_of params)" and "truthy (turnId t)" and "turnId_of params \<noteq> turnId t"
  shows "(\<not> (m = ''account/login/completed'' \<and> loginWaiter s \<noteq> None) \<longrightarrow>
           handleNotification (JStr m) params s =
             s\<lparr>currentTurn := Some (t\<lparr>events := events t @
                  (case summarizeCodexNotification m params of
                     None \<Rightarrow> []
                   | Some summary \<Rightarrow> if summary \<noteq> [] then [summary] else [])\<rparr>)\<rparr>)
       \<and> (m = ''account/login/completed'' \<and> loginWaiter s \<noteq> None \<longrightarrow>
           currentTurn (handleNotification (JStr m) params s) = Some t)"
  using assms
  by (auto simp add: handleNotification_def Let_def settle_def enqueue_def split: option.split)

theorem stale_notification_only_logged_witness:
  "currentTurn busy0 = Some turn0 \<and> truthy (turnId_of stale0) \<and> truthy (turnId turn0) \<and>
   turnId_of stale0 \<noteq> turnId turn0 \<and>
   handleNotification (JStr ''item/completed'') stale0 busy0 =
     busy0\<lparr>currentTurn := Some (turn0\<lparr>events := [''item: stale text'']\<rparr>)\<rparr>"
  using stale_notification_only_logged[of busy0 turn0 stale0 "''item/completed''"]
  by (simp add: busy0_def init_def turn0_def stale0_def turnId_of_def js_or_def
        summarizeCodexNotification_def extractTextFromParams_def starts_with_def js_trim_def
        is_space_def Let_def)

text \<open>
  The claim as stated fails: a stale \<^verbatim>\<open>item/completed\<close> notification is summarized into
  the event log of the active turn.
\<close>

theorem stale_notification_logged_counterexample:
  "currentTurn busy0 = Some turn0 \<and> turnId_of stale0 = JStr ''u0'' \<and> turnId turn0 = JStr ''u1'' \<and>
   currentTurn (handleNotification (JStr ''item/completed'') stale0 busy0) =
     Some (turn0\<lparr>events := [''item: stale text'']\<rparr>) \<and>
   handleNotification (JStr ''item/completed'') stale0 busy0 \<noteq> busy0"
  by (simp add: busy0_def init_def turn0_def stale0_def turnId_of_def js_or_def
        handleNotification_def
        summarizeCodexNotification_def extractTextFromParams_def starts_with_def js_trim_def
        is_space_def Let_def)

section \<open>Evaluating concrete runs\<close>

lemmas model_defs =
  run_def step_def run_microtask_def sendCodexPrompt_def job_outcome_def then_catch_def
  set_status_def job_done_def caught_def runTurn_def runTurn_started_def runTurn_send_def
  getThreadId_def ensureStarted_def start_def await_starting_def settle_start_def
  ensureLoggedIn_def on_spawn_def on_spawn_error_def on_stderr_def turnTimeout_def
  loginTimeout_def handleLine_def handleNotification_def finishTurn_def turn_payload_def
  sendRpc_def write_msg_def sendNotification_def rpcTimeout_def tbl_set_def tbl_delete_def
  settle_def enqueue_def reset_def buildTurnInput_def readCodexContext_def seed_block_def
  text_item_def js_or_def turnId_of_def js_trim_def is_space_def starts_with_def Let_def
  init_def cfg0_def ok_def err_def exited_def not_running_def

lemmas run_defs =
  run_serial_def run_overlap_def run_enoent_def run_spawned_def run_init_timeout_def
  run_restart_def

section \<open>Turn serialization\<close>

text \<open>
  C1 (turn submissions are strictly serialized) fails on the run \<open>run_serial\<close>.  The
  \<^verbatim>\<open>catch\<close> handler of the first prompt, whose turn-start request was answered with an
  error, sets \<^verbatim>\<open>codexQueue\<close> back to a resolved promise although the second prompt is
  chained behind it.  The third prompt is therefore chained on nothing and its
  turn-start request (identifier 6) is written while that of the second prompt
  (identifier 5) is unanswered and the second job is running.  When both requests are
  answered (\<open>run_overlap\<close>), the second prompt owns the active turn and the third one
  ends with \<^verbatim>\<open>Codex turn already in progress.\<close>
\<close>

theorem turn_start_sent_while_turn_unresolved:
  "deliverable_run cfg0 run_overlap init
   \<and> map j_status (jobs (run cfg0 run_serial init)) =
     [JDone (Resolved (caught (Error ''boom'' None))), JRunning, JRunning]
   \<and> drop 5 (out (run cfg0 run_serial init)) =
     [Request ''turn/start'' 5 (JObj [(''threadId'', JStr ''t1''), (''input'', JArr [text_item ''b''])]),
      Request ''turn/start'' 6 (JObj [(''threadId'', JStr ''t1''), (''input'', JArr [text_item ''d''])])]
   \<and> pending (run cfg0 run_serial init) =
     [(5, \<lparr>pe_method = ''turn/start'', pe_waiter = Some [FTurnStart, FJob 1]\<rparr>),
      (6, \<lparr>pe_method = ''turn/start'', pe_waiter = Some [FTurnStart, FJob 2]\<rparr>)]
   \<and> currentTurn (run cfg0 run_overlap init) =
     Some \<lparr>turnId = JStr ''u5'', stdout = [], stderr = [], events = [], waiter = [FJob 1]\<rparr>
   \<and> map j_status (jobs (run cfg0 run_overlap init)) =
     [JDone (Resolved (caught (Error ''boom'' None))), JRunning,
      JDone (Resolved (caught (Error ''Codex turn already in progress.'' None)))]"
  by (simp add: model_defs run_defs)

section \<open>Start coalescing\<close>

text \<open>
  C6 (start coalescing) fails once the child has spawned.  \<^verbatim>\<open>this.proc\<close> is set in the
  \<^verbatim>\<open>'spawn'\<close> handler, before \<^verbatim>\<open>initialize\<close> and the login flow, and \<^verbatim>\<open>ensureStarted\<close>
  tests it first.  After \<open>run_spawned\<close> the start promise is pending and
  \<^verbatim>\<open>initialize\<close> is unanswered, yet a call of \<^verbatim>\<open>ensureStarted\<close> returns at once instead of
  awaiting the attempt.  In \<open>run_restart\<close> this happens to a prompt: its thread-start
  request (identifier 6) is written while the new child's \<^verbatim>\<open>initialize\<close> (identifier 5)
  is unanswered and the start promise is pending.  In \<open>run_init_timeout\<close> the start
  attempt fails and the slot is cleared, but the child stays in \<^verbatim>\<open>this.proc\<close>: the next
  prompt does not spawn again and writes its thread-start request to a child that was
  never initialized.
\<close>

theorem start_not_awaited_after_spawn:
  "deliverable_run cfg0 run_spawned init \<and> deliverable_run cfg0 run_restart init
   \<and> deliverable_run cfg0 run_init_timeout init
   \<and> starting (run cfg0 run_spawned init) =
     Some \<lparr>sp_outcome = None, sp_waiters = [[FEnsureFirst, FRunStarted ''a'' ''/w'', FJob 0]]\<rparr>
   \<and> pending (run cfg0 run_spawned init) = [(1, \<lparr>pe_method = ''initialize'', pe_waiter = Some [FInit]\<rparr>)]
   \<and> ensureStarted [FRunStarted ''d'' ''/w'', FJob 1] (run cfg0 run_spawned init) = Returned ()
   \<and> starting (run cfg0 run_restart init) =
     Some \<lparr>sp_outcome = None, sp_waiters = [[FEnsureFirst, FRunStarted ''b'' ''/w'', FJob 1]]\<rparr>
   \<and> pending (run cfg0 run_restart init) =
     [(5, \<lparr>pe_method = ''initialize'', pe_waiter = Some [FInit]\<rparr>),
      (6, \<lparr>pe_method = ''thread/start'', pe_waiter = Some [FGetThread ''/w'', FRunThread ''d'', FJob 2]\<rparr>)]
   \<and> map j_status (jobs (run cfg0 run_init_timeout init)) =
     [JDone (Resolved (caught (Error ''Codex app-server timeout on initialize'' None))), JRunning]
   \<and> starting (run cfg0 run_init_timeout init) = None
   \<and> spawns (run cfg0 run_init_timeout init) = 1
   \<and> map fst (pending (run cfg0 run_init_timeout init)) = [2]
   \<and> tl (out (run cfg0 run_init_timeout init)) =
     [Request ''thread/start'' 2
        (JObj [(''cwd'', JStr ''/w''), (''approvalPolicy'', JStr ''never''),
               (''sandbox'', JStr ''workspace-write'')])]"
  by (simp add: model_defs run_defs)

section \<open>Failures at the caller's boundary\<close>

lemma resume_rejected_turn_frames:
  "\<forall>f \<in> set k. turn_frame f \<Longrightarrow>
   resume cfg (k @ [FJob j]) (Rejected e) s =
     job_done j (Resolved (caught e))
       ((if FEnsureFirst \<in> set k then s\<lparr>starting := None\<rparr> else s)\<lparr>codexQueue := None\<rparr>)"
proof (induction k arbitrary: s)
  case Nil
  then show ?case by simp
next
  case (Cons f k)
  then show ?case by (cases f) auto
qed

lemma jobs_fold_enqueue: "jobs (fold (\<lambda>x. enqueue (g x)) xs s) = jobs s"
  by (induction xs arbitrary: s) (simp_all add: enqueue_def)

lemma jobs_job_done:
  "jobs (job_done j r s) = map (\<lambda>x. if j_id x = j then x\<lparr>j_status := JDone r\<rparr> else x) (jobs s)"
  by (simp add: job_done_def Let_def jobs_fold_enqueue set_status_def)

lemma find_set_status:
  "find (\<lambda>x. j_id x = j) js = Some x \<Longrightarrow>
   find (\<lambda>x. j_id x = j) (map (\<lambda>x. if j_id x = j then x\<lparr>j_status := st\<rparr> else x) js) =
     Some (x\<lparr>j_status := st\<rparr>)"
  by (induction js) (auto split: if_splits)

lemma jobs_enqueue [simp]: "jobs (enqueue m s) = jobs s"
  by (simp add: enqueue_def)


lemma jobs_settle [simp]: "jobs (settle w r s) = jobs s"
  by (simp add: settle_def split: option.split)


lemma jobs_settle_start [simp]: "jobs (settle_start r s) = jobs s"
  by (simp add: settle_start_def jobs_fold_enqueue split: option.split)


lemma jobs_await_starting [simp]: "jobs (await_starting k s) = jobs s"
  by (simp add: await_starting_def split: option.split)


lemma jobs_sendRpc [simp]: "jobs (sendRpc m p k s) = jobs s"
  by (simp add: sendRpc_def write_msg_def Let_def)


lemma jobs_runTurn_send [simp]: "jobs (runTurn_send cfg p t k s) = jobs s"
  by (simp add: runTurn_send_def buildTurnInput_def Let_def)


lemma jobs_runTurn_started [simp]: "jobs (runTurn_started cfg p cwd k s) = jobs s"
  by (simp add: runTurn_started_def getThreadId_def Let_def)


lemma jobs_runTurn [simp]: "jobs (runTurn cfg p cwd k s) = jobs s"
  by (simp add: runTurn_def ensureStarted_def start_def Let_def)


lemma never_rejected_set_status:
  "never_rejected s \<Longrightarrow> not_rejected st \<Longrightarrow> never_rejected (set_status j st s)"
  by (auto simp add: never_rejected_def set_status_def list_all_iff)


lemma never_rejected_job_done:
  "never_rejected s \<Longrightarrow> never_rejected (job_done j (Resolved v) s)"
  by (auto simp add: never_rejected_def job_done_def Let_def jobs_fold_enqueue set_status_def
        list_all_iff)


lemma never_rejected_jobs: "jobs s' = jobs s \<Longrightarrow> never_rejected s' = never_rejected s"
  by (simp add: never_rejected_def)


lemma never_rejected_resume: "never_rejected s \<Longrightarrow> never_rejected (resume cfg k r s)"
proof (induction cfg k r s rule: resume.induct)
  case (16 cfg j k v s)
  then show ?case by (simp add: never_rejected_job_done)
next
  case (17 cfg j k e s)
  then have "never_rejected (s\<lparr>codexQueue := None\<rparr>)" by (simp add: never_rejected_def)
  then show ?case by (simp add: never_rejected_job_done)
qed (simp_all add: sendNotification_def write_msg_def ensureLoggedIn_def Let_def
      never_rejected_jobs[where s = s] never_rejected_def)



lemma never_rejected_run_microtask:
  "never_rejected s \<Longrightarrow> never_rejected (run_microtask cfg m s)"
proof (cases m)
  case (MResume k r)
  assume "never_rejected s"
  with MResume show ?thesis by (simp add: run_microtask_def never_rejected_resume)
next
  case (MStartJob j)
  assume a: "never_rejected s"
  show ?thesis
  proof (cases "find (\<lambda>x. j_id x = j) (jobs s)")
    case None
    with MStartJob a show ?thesis by (simp add: run_microtask_def)
  next
    case (Some x)
    from a have "never_rejected (set_status j JRunning s)"
      by (rule never_rejected_set_status) simp
    then have "never_rejected (runTurn cfg (j_prompt x) (j_cwd x) [FJob j] (set_status j JRunning s))"
      by (simp add: never_rejected_def)
    with Some MStartJob show ?thesis by (simp add: run_microtask_def)
  qed
qed


lemma jobs_handleNotification [simp]:
  "jobs (handleNotification method params s) = jobs s"
  by (simp add: handleNotification_def finishTurn_def Let_def split: option.split json.split)


lemma jobs_handleLine [simp]: "jobs (handleLine line s) = jobs s"
  by (simp add: handleLine_def Let_def split: option.split json.split)


lemma never_rejected_step: "never_rejected s \<Longrightarrow> never_rejected (step cfg e s)"
proof (cases "crashed s")
  case True
  assume "never_rejected s"
  with True show ?thesis by (simp add: step_def)
next
  case False
  note nc = this
  assume a: "never_rejected s"
  show ?thesis
  proof (cases "mq s")
    case (Cons m ms)
    from a have "never_rejected (s\<lparr>mq := ms\<rparr>)" by (simp add: never_rejected_def)
    then have "never_rejected (run_microtask cfg m (s\<lparr>mq := ms\<rparr>))"
      by (rule never_rejected_run_microtask)
    with nc Cons a show ?thesis by (simp add: step_def)
  next
    case Nil
    with nc a show ?thesis
      by (cases e)
         (simp_all add: step_def never_rejected_def sendCodexPrompt_def on_spawn_def
            on_spawn_error_def rpcTimeout_def turnTimeout_def loginTimeout_def on_stderr_def
            reset_eq Let_def split: option.split)
  qed
qed


lemma never_rejected_run: "never_rejected s \<Longrightarrow> never_rejected (run cfg es s)"
  by (induction es arbitrary: s) (simp_all add: run_def never_rejected_step)

text \<open>
  C9 (failure at the caller's boundary), as the code has it.  No promise that
  \<^verbatim>\<open>sendCodexPrompt\<close> returns is ever rejected.  Whatever \<^verbatim>\<open>runTurn\<close> was awaiting when
  the error \<open>e\<close> reaches it (the start attempt, the thread, the turn-start request, or
  the turn itself, for which \<open>k\<close> is empty), the \<^verbatim>\<open>catch\<close> handler of
  \<^verbatim>\<open>sendCodexPrompt\<close> turns the rejection into a value: the promise the caller holds is
  fulfilled with \<^verbatim>\<open>{stdout: '', stderr: error.message, events}\<close>.
\<close>

theorem failure_resolves_with_caught_error:
  "never_rejected (run cfg es init)
   \<and> ((\<forall>f \<in> set k. turn_frame f) \<and> find (\<lambda>x. j_id x = j) (jobs s) = Some x \<longrightarrow>
      find (\<lambda>x. j_id x = j) (jobs (resume cfg (k @ [FJob j]) (Rejected e) s)) =
        Some (x\<lparr>j_status := JDone (Resolved (caught e))\<rparr>))
   \<and> caught e =
        JObj [(''stdout'', JStr []),
              (''stderr'', JStr (if err_message e \<noteq> [] then err_message e else ''Error'')),
              (''events'', JArr (case err_events e of Some ev \<Rightarrow> map JStr ev | None \<Rightarrow> []))]"
proof (intro conjI)
  have "never_rejected init" by (simp add: never_rejected_def init_def)
  then show "never_rejected (run cfg es init)" by (rule never_rejected_run)
  show "(\<forall>f \<in> set k. turn_frame f) \<and> find (\<lambda>x. j_id x = j) (jobs s) = Some x \<longrightarrow>
      find (\<lambda>x. j_id x = j) (jobs (resume cfg (k @ [FJob j]) (Rejected e) s)) =
        Some (x\<lparr>j_status := JDone (Resolved (caught e))\<rparr>)"
    by (simp add: resume_rejected_turn_frames jobs_job_done find_set_status)
  show "caught e =
        JObj [(''stdout'', JStr []),
              (''stderr'', JStr (if err_message e \<noteq> [] then err_message e else ''Error'')),
              (''events'', JArr (case err_events e of Some ev \<Rightarrow> map JStr ev | None \<Rightarrow> []))]"
    by (simp add: caught_def)
qed

theorem failure_resolves_with_caught_error_witness:
  "turn_frame FTurnStart \<and>
   find (\<lambda>x. j_id x = 0) (jobs (run cfg0 run_spawned init)) =
     Some \<lparr>j_id = 0, j_prompt = ''a'', j_cwd = ''/w'', j_pred = None, j_status = JRunning\<rparr> \<and>
   find (\<lambda>x. j_id x = 0)
     (jobs (resume cfg0 ([FTurnStart] @ [FJob 0]) (Rejected (Error ''boom'' None))
              (run cfg0 run_spawned init))) =
     Some \<lparr>j_id = 0, j_prompt = ''a'', j_cwd = ''/w'', j_pred = None,
           j_status = JDone (Resolved (JObj [(''stdout'', JStr []), (''stderr'', JStr ''boom''),
                                        (''events'', JArr [])]))\<rparr> \<and>
   never_rejected (run cfg0 run_enoent init)"
proof -
  have h: "find (\<lambda>x. j_id x = 0) (jobs (run cfg0 run_spawned init)) =
     Some \<lparr>j_id = 0, j_prompt = ''a'', j_cwd = ''/w'', j_pred = None, j_status = JRunning\<rparr>"
    by (simp add: model_defs run_defs)
  show ?thesis
    using failure_resolves_with_caught_error[of cfg0 run_enoent "[FTurnStart]" 0
            "run cfg0 run_spawned init"
            "\<lparr>j_id = 0, j_prompt = ''a'', j_cwd = ''/w'', j_pred = None, j_status = JRunning\<rparr>"
            "Error ''boom'' None"] h
    by (simp add: caught_def)
qed

text \<open>
  The claim as stated fails: when the executable cannot be launched, the promise the
  caller holds is fulfilled, with the error's message under \<^verbatim>\<open>stderr\<close>.
\<close>

theorem spawn_failure_resolves_counterexample:
  "deliverable_run cfg0 run_enoent init
   \<and> map j_status (jobs (run cfg0 run_enoent init)) =
     [JDone (Resolved (JObj [(''stdout'', JStr []), (''stderr'', JStr ''spawn codex ENOENT''),
                            (''events'', JArr [])]))]"
  by (simp add: model_defs run_defs)

section \<open>Request correlation\<close>

lemma keys_tbl_set:
  "map fst (tbl_set i v tbl) = (if i \<in> set (map fst tbl) then map fst tbl else map fst tbl @ [i])"
  by (induction tbl) (auto simp: tbl_set_def)

lemma keys_tbl_delete: "map fst (tbl_delete i tbl) = filter (\<lambda>j. j \<noteq> i) (map fst tbl)"
  by (induction tbl) (auto simp: tbl_delete_def)

lemma req_ids_append: "req_ids (ws @ vs) = req_ids ws @ req_ids vs"
  by (induction ws rule: req_ids.induct) simp_all

lemma core_upd [simp]:
  "core (s\<lparr>proc := a1\<rparr>) = core s"
  "core (s\<lparr>rl := a2\<rparr>) = core s"
  "core (s\<lparr>threadByCwd := a3\<rparr>) = core s"
  "core (s\<lparr>seededThreads := a4\<rparr>) = core s"
  "core (s\<lparr>currentTurn := a5\<rparr>) = core s"
  "core (s\<lparr>starting := a6\<rparr>) = core s"
  "core (s\<lparr>startupStderr := a7\<rparr>) = core s"
  "core (s\<lparr>loginWaiter := a8\<rparr>) = core s"
  "core (s\<lparr>codexQueue := a9\<rparr>) = core s"
  "core (s\<lparr>jobs := a10\<rparr>) = core s"
  "core (s\<lparr>spawns := a11\<rparr>) = core s"
  "core (s\<lparr>launching := a12\<rparr>) = core s"
  "core (s\<lparr>mq := a13\<rparr>) = core s"
  "core (s\<lparr>context_file := a14\<rparr>) = core s"
  "core (s\<lparr>crashed := a15\<rparr>) = core s"
  by (simp_all add: core_def)

lemma core_enqueue [simp]: "core (enqueue m s) = core s"
  by (simp add: enqueue_def)

lemma proc_enqueue [simp]: "proc (enqueue m s) = proc s"
  by (simp add: enqueue_def)

lemma core_fold_enqueue [simp]: "core (fold (\<lambda>x. enqueue (g x)) xs s) = core s"
  by (induction xs arbitrary: s) simp_all

lemma core_settle [simp]: "core (settle w r s) = core s"
  by (simp add: settle_def split: option.split)

lemma core_settle_start [simp]: "core (settle_start r s) = core s"
  by (simp add: settle_start_def split: option.split)

lemma core_job_done [simp]: "core (job_done j r s) = core s"
  by (simp add: job_done_def Let_def set_status_def)

lemma core_sendRpc: "core (sendRpc m p k s) = alloc (proc s) (core s)"
  by (simp add: sendRpc_def write_msg_def Let_def core_def alloc_def keys_tbl_set req_ids_append enqueue_def)

lemma proc_sendRpc [simp]: "proc (sendRpc m p k s) = proc s"
  by (simp add: sendRpc_def write_msg_def Let_def enqueue_def)

lemma core_runTurn_send: "core (runTurn_send cfg p t k s) = alloc (proc s) (core s)"
  by (simp add: runTurn_send_def buildTurnInput_def Let_def core_sendRpc)

lemma core_runTurn_started: "core (runTurn_started cfg p cwd k s) = alloc (proc s) (core s)"
  by (simp add: runTurn_started_def getThreadId_def Let_def core_sendRpc core_runTurn_send)

lemma core_await_starting [simp]: "core (await_starting k s) = core s"
  by (simp add: await_starting_def split: option.split)

lemma core_runTurn:
  "core (runTurn cfg p cwd k s) = core s \<or> core (runTurn cfg p cwd k s) = alloc (proc s) (core s)"
  by (simp add: runTurn_def ensureStarted_def start_def Let_def core_runTurn_started)

lemma core_resume:
  "core (resume cfg k r s) = core s \<or> core (resume cfg k r s) = alloc (proc s) (core s)"
proof (induction cfg k r s rule: resume.induct)
  case (2 cfg k v s)
  then show ?case
    by (simp add: sendNotification_def write_msg_def ensureLoggedIn_def core_sendRpc)
       (simp add: core_def req_ids_append alloc_def)
qed (simp_all add: core_sendRpc core_runTurn_send core_runTurn_started Let_def)


lemma core_run_microtask:
  "core (run_microtask cfg m s) = core s \<or> core (run_microtask cfg m s) = alloc (proc s) (core s)"
proof (cases m)
  case (MResume k r)
  then show ?thesis using core_resume[of cfg k r s] by (simp add: run_microtask_def)
next
  case (MStartJob j)
  show ?thesis
  proof (cases "find (\<lambda>x. j_id x = j) (jobs s)")
    case None
    then show ?thesis by (simp add: run_microtask_def MStartJob)
  next
    case (Some x)
    then show ?thesis
      using core_runTurn[of cfg "j_prompt x" "j_cwd x" "[FJob j]" "set_status j JRunning s"]
      by (simp add: run_microtask_def MStartJob set_status_def)
  qed
qed

lemma core_sendCodexPrompt [simp]: "core (sendCodexPrompt p cwd s) = core s"
  by (simp add: sendCodexPrompt_def Let_def split: option.split)

lemma core_on_spawn: "core (on_spawn s) = alloc True (core s)"
  by (simp add: on_spawn_def core_sendRpc)

lemma core_on_spawn_error [simp]: "core (on_spawn_error msg s) = core s"
  by (simp add: on_spawn_error_def)

lemma core_on_stderr [simp]: "core (on_stderr chunk s) = core s"
  by (simp add: on_stderr_def Let_def split: option.split)

lemma core_turnTimeout [simp]: "core (turnTimeout s) = core s"
  by (simp add: turnTimeout_def split: option.split)

lemma core_loginTimeout [simp]: "core (loginTimeout s) = core s"
  by (simp add: loginTimeout_def split: option.split)

lemma core_finishTurn [simp]: "core (finishTurn s) = core s"
  by (simp add: finishTurn_def split: option.split)

lemma core_handleNotification [simp]: "core (handleNotification method params s) = core s"
  by (simp add: handleNotification_def Let_def split: option.split json.split)

lemma core_pending_upd:
  "core (s\<lparr>pending := tbl\<rparr>) = (nextId s, map fst tbl, req_ids (out s))"
  by (simp add: core_def)

lemma core_rpcTimeout:
  "core (rpcTimeout i s) = (nextId s, filter (\<lambda>j. j \<noteq> i) (map fst (pending s)), req_ids (out s))"
proof (cases "map_of (pending s) i")
  case None
  then have "i \<notin> set (map fst (pending s))" by (simp add: map_of_eq_None_iff)
  then have "filter (\<lambda>j. j \<noteq> i) (map fst (pending s)) = map fst (pending s)"
    by (simp add: filter_id_conv) blast
  with None show ?thesis by (simp add: rpcTimeout_def core_def)
next
  case (Some p)
  then show ?thesis by (simp add: rpcTimeout_def Let_def core_pending_upd keys_tbl_delete)
qed

lemma core_reset: "core (reset s) = (nextId s, [], req_ids (out s))"
  by (simp add: reset_def Let_def core_def fold_settle settle_eq split: option.split)


lemma filter_absent: "i \<notin> set ks \<Longrightarrow> filter (\<lambda>j. j \<noteq> i) ks = ks"
  by (induction ks) auto

lemma core_handleLine:
  "core (handleLine line s) =
     (nextId s,
      (case answered line of
         None \<Rightarrow> map fst (pending s)
       | Some i \<Rightarrow> filter (\<lambda>j. j \<noteq> i) (map fst (pending s))),
      req_ids (out s))"
proof (cases line)
  case None
  then show ?thesis by (simp add: handleLine_def answered_def core_def)
next
  case (Some message)
  show ?thesis
  proof (cases "jget ''id'' message")
    case (JNum i)
    then have nn: "message \<noteq> JNull" by auto
    show ?thesis
    proof (cases "map_of (pending s) i")
      case None
      then have "i \<notin> set (map fst (pending s))" by (simp add: map_of_eq_None_iff)
      with None show ?thesis
        by (simp add: handleLine_def answered_def Some JNum nn filter_absent core_def)
    next
      case (Some p)
      then show ?thesis
        by (simp add: handleLine_def answered_def \<open>line = Some message\<close> JNum nn Let_def
              core_pending_upd keys_tbl_delete)
    qed
  qed (simp_all add: handleLine_def answered_def Some core_def[of s])
qed

lemma core_step:
  "core (step cfg e s) = core s
   \<or> (\<exists>w. core (step cfg e s) = alloc w (core s))
   \<or> (\<exists>i. (e = RpcTimeout i \<or> (\<exists>l. e = Line l \<and> answered l = Some i)) \<and>
        core (step cfg e s) = (nextId s, filter (\<lambda>j. j \<noteq> i) (map fst (pending s)), req_ids (out s)))
   \<or> (e = Close \<and> core (step cfg e s) = (nextId s, [], req_ids (out s)))"
proof (cases "crashed s")
  case True
  then show ?thesis by (simp add: step_def)
next
  case False
  note nc = this
  show ?thesis
  proof (cases "mq s")
    case (Cons m ms)
    show ?thesis
    proof (cases "e = Tick")
      case True
      then show ?thesis
        using core_run_microtask[of cfg m "s\<lparr>mq := ms\<rparr>"] by (auto simp add: step_def nc Cons)
    next
      case False
      then show ?thesis by (simp add: step_def nc Cons)
    qed
  next
    case Nil
    show ?thesis
    proof (cases e)
      case SpawnOk
      then show ?thesis by (auto simp add: step_def nc Nil core_on_spawn)
    next
      case (Line l)
      show ?thesis
      proof (cases "rl s")
        case True
        have eq: "core (step cfg e s) = core (handleLine l s)"
          by (simp add: step_def nc Nil Line True)
        show ?thesis
        proof (cases "answered l")
          case None
          then have "core (handleLine l s) = core s"
            by (simp add: core_handleLine core_def[of s])
          with eq show ?thesis by simp
        next
          case (Some i)
          then have "core (handleLine l s) =
              (nextId s, filter (\<lambda>j. j \<noteq> i) (map fst (pending s)), req_ids (out s))"
            by (simp add: core_handleLine)
          with eq Line Some show ?thesis by auto
        qed
      next
        case False
        then show ?thesis by (simp add: step_def nc Nil Line)
      qed
    next
      case (RpcTimeout i)
      then show ?thesis by (simp add: step_def nc Nil core_rpcTimeout)
    next
      case Close
      then show ?thesis by (simp add: step_def nc Nil core_reset)
    qed (simp_all add: step_def nc Nil)
  qed
qed

lemma fresh_alloc: "fresh c \<Longrightarrow> fresh (alloc w c)"
  by (cases c) (auto simp add: fresh_def alloc_def list_all_iff sorted_wrt_append)

lemma fresh_filter: "fresh (n, ks, rs) \<Longrightarrow> fresh (n, filter P ks, rs)"
  by (auto simp add: fresh_def list_all_iff)

lemma fresh_nil: "fresh (n, ks, rs) \<Longrightarrow> fresh (n, [], rs)"
  by (auto simp add: fresh_def)

lemma core_step_cases:
  obtains (same) "core (step cfg e s) = core s"
  | (alloc) w where "core (step cfg e s) = alloc w (core s)"
  | (removed) i where "e = RpcTimeout i \<or> (\<exists>l. e = Line l \<and> answered l = Some i)"
      and "core (step cfg e s) = (nextId s, filter (\<lambda>j. j \<noteq> i) (map fst (pending s)), req_ids (out s))"
  | (closed) "e = Close" and "core (step cfg e s) = (nextId s, [], req_ids (out s))"
  using core_step[of cfg e s] by blast

lemma core_split: "core s = (nextId s, map fst (pending s), req_ids (out s))"
  by (simp add: core_def)

lemma fresh_step: "fresh (core s) \<Longrightarrow> fresh (core (step cfg e s))"
proof (cases rule: core_step_cases[of cfg e s])
  case same
  assume "fresh (core s)"
  with same show ?thesis by simp
next
  case (alloc w)
  assume "fresh (core s)"
  with alloc show ?thesis by (simp add: fresh_alloc)
next
  case (removed i)
  assume "fresh (core s)"
  then have "fresh (nextId s, map fst (pending s), req_ids (out s))" by (simp add: core_split)
  then show ?thesis unfolding removed(2) by (rule fresh_filter)
next
  case closed
  assume "fresh (core s)"
  then have "fresh (nextId s, map fst (pending s), req_ids (out s))" by (simp add: core_split)
  then show ?thesis unfolding closed(2) by (rule fresh_nil)
qed

lemma fresh_run: "fresh (core s) \<Longrightarrow> fresh (core (run cfg es s))"
  by (induction es arbitrary: s) (simp_all add: run_def fresh_step)

lemma fresh_init: "fresh (core init)"
  by (simp add: fresh_def core_def init_def)

lemma nextId_core: "nextId s = fst (core s)"
  by (simp add: core_def)

lemma keys_core: "map fst (pending s) = fst (snd (core s))"
  by (simp add: core_def)

lemma fst_alloc: "fst (alloc w c) = fst c + 1"
  by (cases c) (simp add: alloc_def)

lemma keys_alloc: "set (fst (snd c)) \<subseteq> set (fst (snd (alloc w c)))"
  by (cases c) (auto simp add: alloc_def)

lemma nextId_step: "nextId s \<le> nextId (step cfg e s)"
proof (cases rule: core_step_cases[of cfg e s])
  case same
  then show ?thesis by (simp add: nextId_core)
next
  case (alloc w)
  then show ?thesis by (simp add: nextId_core fst_alloc)
next
  case (removed i)
  have "nextId (step cfg e s) = fst (core (step cfg e s))" by (rule nextId_core)
  also have "\<dots> = nextId s" using removed(2) by simp
  finally show ?thesis by simp
next
  case closed
  have "nextId (step cfg e s) = fst (core (step cfg e s))" by (rule nextId_core)
  also have "\<dots> = nextId s" using closed(2) by simp
  finally show ?thesis by simp
qed

lemma nextId_run: "nextId s \<le> nextId (run cfg es s)"
proof (induction es arbitrary: s)
  case Nil
  then show ?case by (simp add: run_def)
next
  case (Cons e es)
  have "nextId s \<le> nextId (step cfg e s)" by (rule nextId_step)
  also have "\<dots> \<le> nextId (run cfg es (step cfg e s))" by (rule Cons.IH)
  finally show ?case by (simp add: run_def)
qed

lemma keys_removed_step:
  assumes "i \<in> set (map fst (pending s))" and "i \<notin> set (map fst (pending (step cfg e s)))"
  shows "e = RpcTimeout i \<or> (\<exists>l. e = Line l \<and> answered l = Some i) \<or> e = Close"
proof (cases rule: core_step_cases[of cfg e s])
  case same
  with assms show ?thesis by (simp add: keys_core)
next
  case (alloc w)
  with assms keys_alloc[of "core s" w] show ?thesis by (auto simp add: keys_core)
next
  case (removed j)
  from removed(2) have "map fst (pending (step cfg e s)) = filter (\<lambda>k. k \<noteq> j) (map fst (pending s))"
    by (simp add: keys_core[of "step cfg e s"])
  with assms have "j = i" by auto
  with removed(1) show ?thesis by blast
next
  case closed
  then show ?thesis by blast
qed

lemma above_alloc: "above b c \<Longrightarrow> above b (alloc w c)"
  by (cases c) (auto simp add: above_def alloc_def)

lemma above_filter: "above b (n, ks, rs) \<Longrightarrow> above b (n, filter P ks, rs)"
  by (auto simp add: above_def list_all_iff)

lemma above_nil: "above b (n, ks, rs) \<Longrightarrow> above b (n, [], rs)"
  by (auto simp add: above_def)

lemma above_step: "above b (core s) \<Longrightarrow> above b (core (step cfg e s))"
proof (cases rule: core_step_cases[of cfg e s])
  case same
  assume "above b (core s)"
  with same show ?thesis by simp
next
  case (alloc w)
  assume "above b (core s)"
  with alloc show ?thesis by (simp add: above_alloc)
next
  case (removed i)
  assume "above b (core s)"
  then have "above b (nextId s, map fst (pending s), req_ids (out s))" by (simp add: core_split)
  then show ?thesis unfolding removed(2) by (rule above_filter)
next
  case closed
  assume "above b (core s)"
  then have "above b (nextId s, map fst (pending s), req_ids (out s))" by (simp add: core_split)
  then show ?thesis unfolding closed(2) by (rule above_nil)
qed

lemma above_run: "above b (core s) \<Longrightarrow> above b (core (run cfg es s))"
  by (induction es arbitrary: s) (simp_all add: run_def above_step)

lemma map_of_replace:
  "i \<in> fst ` set tbl \<Longrightarrow>
   map_of (map (\<lambda>(j, x). if j = i then (j, v) else (j, x)) tbl) i = Some v"
  by (induction tbl) auto

lemma map_of_snoc: "i \<notin> fst ` set tbl \<Longrightarrow> map_of (tbl @ [(i, v)]) i = Some v"
proof -
  assume "i \<notin> fst ` set tbl"
  then have "map_of tbl i = None" by (simp add: map_of_eq_None_iff)
  then show ?thesis by (simp add: map_add_Some_iff)
qed

lemma map_of_tbl_set: "map_of (tbl_set i v tbl) i = Some v"
  by (cases "i \<in> fst ` set tbl") (simp_all add: tbl_set_def map_of_replace map_of_snoc del: map_of_append)

lemma keys_notin_tbl_delete: "i \<notin> set (map fst (tbl_delete i tbl))"
  by (simp add: keys_tbl_delete)

lemma sendRpc_running:
  "proc s \<Longrightarrow>
   sendRpc m p k s =
     s\<lparr>nextId := nextId s + 1,
       pending := tbl_set (nextId s) \<lparr>pe_method = m, pe_waiter = Some k\<rparr> (pending s),
       out := out s @ [Request m (nextId s) p]\<rparr>"
  by (simp add: sendRpc_def write_msg_def Let_def)

lemma map_of_sendRpc:
  "map_of (pending (sendRpc m p k s)) (nextId s) =
     Some \<lparr>pe_method = m, pe_waiter = (if proc s then Some k else None)\<rparr>"
  by (simp add: sendRpc_def write_msg_def Let_def enqueue_def map_of_tbl_set)

lemma nextId_sendRpc: "nextId (sendRpc m p k s) = nextId s + 1"
  by (simp add: sendRpc_def write_msg_def Let_def enqueue_def)

lemma handleLine_response:
  "map_of (pending s) i = Some q \<and> jget ''id'' message = JNum i \<longrightarrow>
   handleLine (Some message) s =
     settle (pe_waiter q)
       (if truthy (jget ''error'' message)
        then Rejected (Error (js_String (js_or (jget ''message'' (jget ''error'' message))
                                 (JStr ''Codex error''))) None)
        else Resolved (js_or (jget ''result'' message) (JObj [])))
       (s\<lparr>pending := tbl_delete i (pending s)\<rparr>)"
proof
  assume a: "map_of (pending s) i = Some q \<and> jget ''id'' message = JNum i"
  then have "message \<noteq> JNull" by auto
  with a show "handleLine (Some message) s =
     settle (pe_waiter q)
       (if truthy (jget ''error'' message)
        then Rejected (Error (js_String (js_or (jget ''message'' (jget ''error'' message))
                                 (JStr ''Codex error''))) None)
        else Resolved (js_or (jget ''result'' message) (JObj [])))
       (s\<lparr>pending := tbl_delete i (pending s)\<rparr>)"
    by (simp add: handleLine_def Let_def)
qed

lemma rpcTimeout_pending:
  "map_of (pending s) i = Some q \<longrightarrow>
   rpcTimeout i s =
     settle (pe_waiter q)
       (Rejected (Error (''Codex app-server timeout on '' @ pe_method q @
          (if pe_method q = ''initialize'' \<and> js_trim (startupStderr s) \<noteq> []
           then ''. Stderr: '' @ js_trim (startupStderr s) else [])) None))
       (s\<lparr>pending := tbl_delete i (pending s)\<rparr>)"
  by (simp add: rpcTimeout_def Let_def)

lemma removed_only_by:
  "i \<in> set (map fst (pending s)) \<and> i \<notin> set (map fst (pending (step cfg e s))) \<longrightarrow>
   e = RpcTimeout i \<or> (\<exists>l. e = Line l \<and> answered l = Some i) \<or> e = Close"
  using keys_removed_step[of i s cfg e] by blast

text \<open>
  C8 (request correlation), as the code has it.  In every state a run reaches, the
  counter is above every pending key and every identifier written, and the pending keys
  are distinct.  The counter never decreases; \<^verbatim>\<open>sendRpc\<close> stores its entry under the
  current value of the counter and increments it, so the identifier of a call is
  greater than those of all earlier calls.  An entry leaves the table only when a line
  carrying its identifier arrives, when its timer fires, or when the subprocess exits
  (\<^verbatim>\<open>reset\<close> clears the table and rejects every entry).  On a response and on a timeout
  the entry is deleted first and its waiter settled afterwards: resolved with the
  result, rejected with the error payload's message, or rejected with a timeout error.
\<close>

theorem request_correlation:
  "fresh (core (run cfg es init))
   \<and> nextId s \<le> nextId (run cfg es s)
   \<and> nextId (sendRpc m p k s) = nextId s + 1
   \<and> map_of (pending (sendRpc m p k s)) (nextId s) =
       Some \<lparr>pe_method = m, pe_waiter = (if proc s then Some k else None)\<rparr>
   \<and> (i \<in> set (map fst (pending s)) \<and> i \<notin> set (map fst (pending (step cfg e s))) \<longrightarrow>
       e = RpcTimeout i \<or> (\<exists>l. e = Line l \<and> answered l = Some i) \<or> e = Close)
   \<and> (map_of (pending s) i = Some q \<and> jget ''id'' message = JNum i \<longrightarrow>
       handleLine (Some message) s =
         settle (pe_waiter q)
           (if truthy (jget ''error'' message)
            then Rejected (Error (js_String (js_or (jget ''message'' (jget ''error'' message))
                                     (JStr ''Codex error''))) None)
            else Resolved (js_or (jget ''result'' message) (JObj [])))
           (s\<lparr>pending := tbl_delete i (pending s)\<rparr>))
   \<and> (map_of (pending s) i = Some q \<longrightarrow>
       rpcTimeout i s =
         settle (pe_waiter q)
           (Rejected (Error (''Codex app-server timeout on '' @ pe_method q @
              (if pe_method q = ''initialize'' \<and> js_trim (startupStderr s) \<noteq> []
               then ''. Stderr: '' @ js_trim (startupStderr s) else [])) None))
           (s\<lparr>pending := tbl_delete i (pending s)\<rparr>))
   \<and> i \<notin> set (map fst (tbl_delete i (pending s)))"
  using fresh_run[OF fresh_init, of cfg es] nextId_run[of s cfg es] nextId_sendRpc[of m p k s]
    map_of_sendRpc[of m p k s] removed_only_by[of i s cfg e] handleLine_response[of s i q message]
    rpcTimeout_pending[of s i q] keys_notin_tbl_delete[of i "pending s"]
  by (intro conjI)

theorem request_correlation_witness:
  "7 \<in> set (map fst (pending busy0)) \<and>
   7 \<notin> set (map fst (pending (step cfg0 (ok 7 thread_reply) busy0))) \<and>
   answered (Some (JObj [(''id'', JNum 7), (''result'', thread_reply)])) = Some 7 \<and>
   map_of (pending busy0) 7 =
     Some \<lparr>pe_method = ''thread/start'', pe_waiter = Some [FGetThread ''/w'', FRunThread ''p'', FJob 1]\<rparr> \<and>
   jget ''id'' (JObj [(''id'', JNum 7), (''result'', thread_reply)]) = JNum 7 \<and>
   handleLine (Some (JObj [(''id'', JNum 7), (''result'', thread_reply)])) busy0 =
     busy0\<lparr>pending := [],
           mq := [MResume [FGetThread ''/w'', FRunThread ''p'', FJob 1] (Resolved thread_reply)]\<rparr> \<and>
   rpcTimeout 7 busy0 =
     busy0\<lparr>pending := [],
           mq := [MResume [FGetThread ''/w'', FRunThread ''p'', FJob 1]
                    (Rejected (Error ''Codex app-server timeout on thread/start'' None))]\<rparr> \<and>
   nextId (sendRpc ''turn/start'' (JObj []) [FTurnStart, FJob 1] busy0) = 9 \<and>
   fresh (core (run cfg0 run_serial init))"
  using request_correlation[where s = busy0 and i = 7 and cfg = cfg0 and es = run_serial
          and e = "ok 7 thread_reply" and m = "''turn/start''" and p = "JObj []"
          and k = "[FTurnStart, FJob 1]"
          and q = "\<lparr>pe_method = ''thread/start'',
                      pe_waiter = Some [FGetThread ''/w'', FRunThread ''p'', FJob 1]\<rparr>"
          and message = "JObj [(''id'', JNum 7), (''result'', thread_reply)]"]
  by (simp add: busy0_def init_def ok_def thread_reply_def answered_def step_def handleLine_def
        tbl_delete_def settle_def enqueue_def js_or_def Let_def)

text \<open>
  The claim as stated fails: when the subprocess exits while \<^verbatim>\<open>initialize\<close> is pending,
  the entry leaves the table although no line carrying its identifier arrived and its
  timer did not fire.
\<close>

theorem request_correlation_counterexample:
  "deliverable_run cfg0 run_exit init \<and>
   pending (run cfg0 run_spawned init) = [(1, \<lparr>pe_method = ''initialize'', pe_waiter = Some [FInit]\<rparr>)] \<and>
   run cfg0 run_exit init = step cfg0 Close (run cfg0 run_spawned init) \<and>
   pending (run cfg0 run_exit init) = [] \<and>
   mq (run cfg0 run_exit init) = [MResume [FInit] (Rejected exited)]"
  by (simp add: model_defs run_defs run_exit_def answered_def)

section \<open>Identifiers across restarts\<close>

lemma above_reset: "above (nextId s) (core (reset s))"
  by (simp add: core_reset above_def)

text \<open>
  C10.  \<^verbatim>\<open>reset\<close> leaves the counter alone.  Hence, over any run of the bridge,
  whatever the number of exits and restarts in it, the identifiers of the requests
  written are strictly increasing and, like the keys of the pending entries, below the
  counter; and every entry that is pending at any time after a reset carries an
  identifier that is at least the value the counter had at the reset, above every
  identifier used before it.
\<close>

theorem ids_increase_across_restarts:
  "nextId (reset s) = nextId s
   \<and> sorted_wrt (<) (req_ids (out (run cfg es init)))
   \<and> list_all (\<lambda>i. i < nextId (run cfg es init)) (req_ids (out (run cfg es init)))
   \<and> list_all (\<lambda>i. i < nextId (run cfg es init)) (map fst (pending (run cfg es init)))
   \<and> list_all (\<lambda>i. nextId s \<le> i) (map fst (pending (run cfg es' (reset s))))
   \<and> nextId s \<le> nextId (run cfg es' (reset s))"
proof (intro conjI)
  show "nextId (reset s) = nextId s"
    using core_reset[of s] by (simp add: core_def)
  have f: "fresh (core (run cfg es init))" by (rule fresh_run[OF fresh_init])
  then show "sorted_wrt (<) (req_ids (out (run cfg es init)))"
    by (simp add: fresh_def core_def)
  from f show "list_all (\<lambda>i. i < nextId (run cfg es init)) (req_ids (out (run cfg es init)))"
    by (simp add: fresh_def core_def)
  from f show "list_all (\<lambda>i. i < nextId (run cfg es init)) (map fst (pending (run cfg es init)))"
    by (simp add: fresh_def core_def)
  have a: "above (nextId s) (core (run cfg es' (reset s)))"
    by (rule above_run[OF above_reset])
  then show "list_all (\<lambda>i. nextId s \<le> i) (map fst (pending (run cfg es' (reset s))))"
    by (simp add: above_def core_def)
  from a show "nextId s \<le> nextId (run cfg es' (reset s))"
    by (simp add: above_def core_def)
qed

theorem ids_increase_across_restarts_witness:
  "nextId (reset busy0) = 8 \<and>
   req_ids (out (run cfg0 run_restart init)) = [1, 2, 3, 4, 5, 6] \<and>
   nextId (run cfg0 run_restart init) = 7 \<and>
   map fst (pending (run cfg0 [Tick, Tick, SpawnOk, Submit ''d'' ''/w'', Tick]
                       (reset (run cfg0 (take 11 run_restart) init)))) = [5, 6] \<and>
   nextId (run cfg0 (take 11 run_restart) init) = 5"
  using ids_increase_across_restarts[of "run cfg0 (take 11 run_restart) init" cfg0 run_restart
          "[Tick, Tick, SpawnOk, Submit ''d'' ''/w'', Tick]"]
  by (simp add: model_defs run_defs busy0_def waiters_def map_filter_simps)

section \<open>Login flow\<close>

lemma login_read:
  "proc s \<longrightarrow>
      out (ensureLoggedIn k s) =
        out s @ [Request ''account/read'' (nextId s) (JObj [(''refreshToken'', JBool False)])]
      \<and> map_of (pending (ensureLoggedIn k s)) (nextId s) =
        Some \<lparr>pe_method = ''account/read'', pe_waiter = Some (FAccountRead # k)\<rparr>"
  by (simp add: ensureLoggedIn_def sendRpc_running map_of_tbl_set)

lemma login_not_needed:
  "\<not> truthy (jget ''requiresOpenaiAuth'' authInfo) \<or> truthy (jget ''account'' authInfo) \<longrightarrow>
      resume cfg (FAccountRead # k) (Resolved authInfo) s = resume cfg k (Resolved JUndef) s"
  by simp

lemma login_no_credential:
  "truthy (jget ''requiresOpenaiAuth'' authInfo) \<and> \<not> truthy (jget ''account'' authInfo) \<and>
      \<not> truthy (OPENAI_API_KEY cfg) \<longrightarrow>
      resume cfg (FAccountRead # k) (Resolved authInfo) s =
        resume cfg k
          (Rejected (Error ''OPENAI_API_KEY is not set. Codex app-server requires authentication.'' None)) s"
  by simp

lemma login_start:
  "truthy (jget ''requiresOpenaiAuth'' authInfo) \<and> \<not> truthy (jget ''account'' authInfo) \<and>
      truthy (OPENAI_API_KEY cfg) \<and> proc s \<longrightarrow>
      resume cfg (FAccountRead # k) (Resolved authInfo) s =
        s\<lparr>nextId := nextId s + 1,
          pending := tbl_set (nextId s)
            \<lparr>pe_method = ''account/login/start'', pe_waiter = Some (FLoginStart # k)\<rparr> (pending s),
          out := out s @ [Request ''account/login/start'' (nextId s)
                    (JObj [(''type'', JStr ''apiKey''), (''apiKey'', OPENAI_API_KEY cfg)])]\<rparr>"
  by (simp add: sendRpc_running)

lemma login_completed:
  "loginWaiter s = Some (FLoginWait # k) \<and> truthy (jget ''success'' params) \<longrightarrow>
      handleNotification (JStr ''account/login/completed'') params s =
        (s\<lparr>loginWaiter := None\<rparr>)\<lparr>mq := mq s @ [MResume (FLoginWait # k) (Resolved params)]\<rparr>"
  by (simp add: handleNotification_def settle_def enqueue_def Let_def)

text \<open>
  C7 (login flow).  \<^verbatim>\<open>ensureLoggedIn\<close> writes one account-status request.  When the
  answer does not require authentication, or has an account, the function returns to
  its caller with the state as it is, so no login-start request is written.
  Otherwise, without a credential in \<^verbatim>\<open>OPENAI_API_KEY\<close>, it throws the
  missing-credential error, again with the state as it is.  With a credential it
  writes exactly one login-start request carrying it; when that is answered it
  installs the login waiter and stays suspended, until the login-completed
  notification hands the waiter over to the microtask queue, and then returns.
\<close>

theorem login_flow:
  "(proc s \<longrightarrow>
      out (ensureLoggedIn k s) =
        out s @ [Request ''account/read'' (nextId s) (JObj [(''refreshToken'', JBool False)])]
      \<and> map_of (pending (ensureLoggedIn k s)) (nextId s) =
        Some \<lparr>pe_method = ''account/read'', pe_waiter = Some (FAccountRead # k)\<rparr>)
   \<and> (\<not> truthy (jget ''requiresOpenaiAuth'' authInfo) \<or> truthy (jget ''account'' authInfo) \<longrightarrow>
      resume cfg (FAccountRead # k) (Resolved authInfo) s = resume cfg k (Resolved JUndef) s)
   \<and> (truthy (jget ''requiresOpenaiAuth'' authInfo) \<and> \<not> truthy (jget ''account'' authInfo) \<and>
      \<not> truthy (OPENAI_API_KEY cfg) \<longrightarrow>
      resume cfg (FAccountRead # k) (Resolved authInfo) s =
        resume cfg k
          (Rejected (Error ''OPENAI_API_KEY is not set. Codex app-server requires authentication.'' None)) s)
   \<and> (truthy (jget ''requiresOpenaiAuth'' authInfo) \<and> \<not> truthy (jget ''account'' authInfo) \<and>
      truthy (OPENAI_API_KEY cfg) \<and> proc s \<longrightarrow>
      resume cfg (FAccountRead # k) (Resolved authInfo) s =
        s\<lparr>nextId := nextId s + 1,
          pending := tbl_set (nextId s)
            \<lparr>pe_method = ''account/login/start'', pe_waiter = Some (FLoginStart # k)\<rparr> (pending s),
          out := out s @ [Request ''account/login/start'' (nextId s)
                    (JObj [(''type'', JStr ''apiKey''), (''apiKey'', OPENAI_API_KEY cfg)])]\<rparr>)
   \<and> resume cfg (FLoginStart # k) (Resolved v) s = s\<lparr>loginWaiter := Some (FLoginWait # k)\<rparr>
   \<and> (loginWaiter s = Some (FLoginWait # k) \<and> truthy (jget ''success'' params) \<longrightarrow>
      handleNotification (JStr ''account/login/completed'') params s =
        (s\<lparr>loginWaiter := None\<rparr>)\<lparr>mq := mq s @ [MResume (FLoginWait # k) (Resolved params)]\<rparr>)
   \<and> resume cfg (FLoginWait # k) (Resolved v) s = resume cfg k (Resolved JUndef) s"
proof (intro conjI)
  show "proc s \<longrightarrow>
      out (ensureLoggedIn k s) =
        out s @ [Request ''account/read'' (nextId s) (JObj [(''refreshToken'', JBool False)])]
      \<and> map_of (pending (ensureLoggedIn k s)) (nextId s) =
        Some \<lparr>pe_method = ''account/read'', pe_waiter = Some (FAccountRead # k)\<rparr>"
    by (rule login_read)
  show "\<not> truthy (jget ''requiresOpenaiAuth'' authInfo) \<or> truthy (jget ''account'' authInfo) \<longrightarrow>
      resume cfg (FAccountRead # k) (Resolved authInfo) s = resume cfg k (Resolved JUndef) s"
    by (rule login_not_needed)
  show "truthy (jget ''requiresOpenaiAuth'' authInfo) \<and> \<not> truthy (jget ''account'' authInfo) \<and>
      \<not> truthy (OPENAI_API_KEY cfg) \<longrightarrow>
      resume cfg (FAccountRead # k) (Resolved authInfo) s =
        resume cfg k
          (Rejected (Error ''OPENAI_API_KEY is not set. Codex app-server requires authentication.'' None)) s"
    by (rule login_no_credential)
  show "truthy (jget ''requiresOpenaiAuth'' authInfo) \<and> \<not> truthy (jget ''account'' authInfo) \<and>
      truthy (OPENAI_API_KEY cfg) \<and> proc s \<longrightarrow>
      resume cfg (FAccountRead # k) (Resolved authInfo) s =
        s\<lparr>nextId := nextId s + 1,
          pending := tbl_set (nextId s)
            \<lparr>pe_method = ''account/login/start'', pe_waiter = Some (FLoginStart # k)\<rparr> (pending s),
          out := out s @ [Request ''account/login/start'' (nextId s)
                    (JObj [(''type'', JStr ''apiKey''), (''apiKey'', OPENAI_API_KEY cfg)])]\<rparr>"
    by (rule login_start)
  show "resume cfg (FLoginStart # k) (Resolved v) s = s\<lparr>loginWaiter := Some (FLoginWait # k)\<rparr>"
    by simp
  show "loginWaiter s = Some (FLoginWait # k) \<and> truthy (jget ''success'' params) \<longrightarrow>
      handleNotification (JStr ''account/login/completed'') params s =
        (s\<lparr>loginWaiter := None\<rparr>)\<lparr>mq := mq s @ [MResume (FLoginWait # k) (Resolved params)]\<rparr>"
    by (rule login_completed)
  show "resume cfg (FLoginWait # k) (Resolved v) s = resume cfg k (Resolved JUndef) s"
    by simp
qed

theorem login_flow_witness:
  "proc spawned0 \<and> truthy (jget ''requiresOpenaiAuth'' needs_login) \<and>
   \<not> truthy (jget ''account'' needs_login) \<and> truthy (OPENAI_API_KEY cfg_key) \<and>
   \<not> truthy (OPENAI_API_KEY cfg0) \<and>
   out (ensureLoggedIn [FLoginDone] spawned0) =
     [Request ''account/read'' 3 (JObj [(''refreshToken'', JBool False)])] \<and>
   resume cfg_key [FAccountRead, FLoginDone] (Resolved (JObj [])) spawned0 = spawned0 \<and>
   out (resume cfg0 [FAccountRead, FLoginDone] (Resolved needs_login) spawned0) = [] \<and>
   out (resume cfg_key [FAccountRead, FLoginDone] (Resolved needs_login) spawned0) =
     [Request ''account/login/start'' 3 (JObj [(''type'', JStr ''apiKey''), (''apiKey'', JStr ''sk-test'')])] \<and>
   loginWaiter (resume cfg_key [FLoginStart, FLoginDone] (Resolved (JObj [])) spawned0) =
     Some [FLoginWait, FLoginDone] \<and>
   mq (handleNotification (JStr ''account/login/completed'') (JObj [(''success'', JBool True)])
         waiting_login) =
     [MResume [FLoginWait, FLoginDone] (Resolved (JObj [(''success'', JBool True)]))]"
  using login_flow[where s = spawned0 and k = "[FLoginDone]" and authInfo = needs_login
          and cfg = cfg_key and v = "JObj []"]
        login_flow[where s = spawned0 and k = "[FLoginDone]" and authInfo = "JObj []"
          and cfg = cfg_key]
        login_flow[where s = spawned0 and k = "[FLoginDone]" and authInfo = needs_login
          and cfg = cfg0]
        login_flow[where s = waiting_login and k = "[FLoginDone]"
          and params = "JObj [(''success'', JBool True)]"]
  by (simp add: spawned0_def waiting_login_def init_def cfg_key_def cfg0_def needs_login_def
        settle_start_def)

section \<open>Thread stability\<close>

lemma set_map_filter: "set (List.map_filter f xs) = {y. \<exists>x \<in> set xs. f x = Some y}"
  by (induction xs) (auto simp add: map_filter_simps split: option.splits)

lemma set_mq_konts: "set (mq_konts ms) = {k. \<exists>r. MResume k r \<in> set ms}"
  by (induction ms rule: mq_konts.induct) auto

definition pend_konts :: "(int \<times> pending_entry) list \<Rightarrow> kont set" where
  "pend_konts tbl = {k. \<exists>i e. (i, e) \<in> set tbl \<and> pe_waiter e = Some k}"

lemma set_konts:
  "set (konts s) =
     pend_konts (pending s)
     \<union> (case currentTurn s of None \<Rightarrow> {} | Some t \<Rightarrow> {waiter t})
     \<union> (case loginWaiter s of None \<Rightarrow> {} | Some k \<Rightarrow> {k})
     \<union> (case starting s of None \<Rightarrow> {} | Some p \<Rightarrow> set (sp_waiters p))
     \<union> {k. \<exists>r. MResume k r \<in> set (mq s)}"
  by (force simp add: konts_def waiters_def set_map_filter set_mq_konts pend_konts_def
        split: option.splits)

lemma pend_konts_tbl_set:
  "pend_konts (tbl_set i e tbl) \<subseteq> set_option (pe_waiter e) \<union> pend_konts tbl"
  by (auto simp add: pend_konts_def tbl_set_def split: if_splits) blast+

lemma pend_konts_tbl_delete: "pend_konts (tbl_delete i tbl) \<subseteq> pend_konts tbl"
  by (auto simp add: pend_konts_def tbl_delete_def)

lemma pend_konts_lookup:
  "map_of tbl i = Some p \<Longrightarrow> set_option (pe_waiter p) \<subseteq> pend_konts tbl"
  by (auto simp add: pend_konts_def dest!: map_of_SomeD)

lemma konts_enqueue_resume: "set (konts (enqueue (MResume k r) s)) \<subseteq> insert k (set (konts s))"
  by (auto simp add: set_konts enqueue_def)

lemma konts_enqueue_start: "set (konts (enqueue (MStartJob j) s)) \<subseteq> set (konts s)"
  by (auto simp add: set_konts enqueue_def)

lemma konts_settle: "set (konts (settle w r s)) \<subseteq> set_option w \<union> set (konts s)"
  by (cases w) (auto simp add: settle_def dest: konts_enqueue_resume[THEN subsetD])

lemma konts_fold_enqueue:
  "set (konts (fold (\<lambda>k. enqueue (MResume k r)) ks s)) \<subseteq> set ks \<union> set (konts s)"
proof (induction ks arbitrary: s)
  case Nil
  then show ?case by simp
next
  case (Cons k ks)
  have "set (konts (fold (\<lambda>k. enqueue (MResume k r)) ks (enqueue (MResume k r) s)))
        \<subseteq> set ks \<union> set (konts (enqueue (MResume k r) s))"
    by (rule Cons.IH)
  with konts_enqueue_resume[of k r s] show ?case by auto
qed


lemma clean_iff: "clean cwd s \<longleftrightarrow> (\<forall>k \<in> set (konts s). FGetThread cwd \<notin> set k)"
  by (simp add: clean_def list_all_iff)

lemma clean_subset:
  "clean cwd s \<Longrightarrow> set (konts s') \<subseteq> N \<union> set (konts s) \<Longrightarrow>
   (\<forall>k \<in> N. FGetThread cwd \<notin> set k) \<Longrightarrow> clean cwd s'"
  by (auto simp add: clean_iff)

lemma thread_starts_append:
  "thread_starts cwd (ws @ vs) = thread_starts cwd ws @ thread_starts cwd vs"
  by (induction cwd ws rule: thread_starts.induct) simp_all

lemma tproj_upd [simp]:
  "tproj cwd (s\<lparr>proc := a1\<rparr>) = tproj cwd s"
  "tproj cwd (s\<lparr>rl := a2\<rparr>) = tproj cwd s"
  "tproj cwd (s\<lparr>nextId := a3\<rparr>) = tproj cwd s"
  "tproj cwd (s\<lparr>seededThreads := a4\<rparr>) = tproj cwd s"
  "tproj cwd (s\<lparr>currentTurn := a5\<rparr>) = tproj cwd s"
  "tproj cwd (s\<lparr>starting := a6\<rparr>) = tproj cwd s"
  "tproj cwd (s\<lparr>startupStderr := a7\<rparr>) = tproj cwd s"
  "tproj cwd (s\<lparr>loginWaiter := a8\<rparr>) = tproj cwd s"
  "tproj cwd (s\<lparr>codexQueue := a9\<rparr>) = tproj cwd s"
  "tproj cwd (s\<lparr>jobs := a10\<rparr>) = tproj cwd s"
  "tproj cwd (s\<lparr>spawns := a11\<rparr>) = tproj cwd s"
  "tproj cwd (s\<lparr>launching := a12\<rparr>) = tproj cwd s"
  "tproj cwd (s\<lparr>mq := a13\<rparr>) = tproj cwd s"
  "tproj cwd (s\<lparr>context_file := a14\<rparr>) = tproj cwd s"
  "tproj cwd (s\<lparr>crashed := a15\<rparr>) = tproj cwd s"
  "tproj cwd (s\<lparr>pending := a16\<rparr>) = tproj cwd s"
  by (simp_all add: tproj_def)

lemma konts_upd [simp]:
  "konts (s\<lparr>proc := a1\<rparr>) = konts s"
  "konts (s\<lparr>rl := a2\<rparr>) = konts s"
  "konts (s\<lparr>nextId := a3\<rparr>) = konts s"
  "konts (s\<lparr>seededThreads := a4\<rparr>) = konts s"
  "konts (s\<lparr>threadByCwd := a5\<rparr>) = konts s"
  "konts (s\<lparr>out := a6\<rparr>) = konts s"
  "konts (s\<lparr>startupStderr := a7\<rparr>) = konts s"
  "konts (s\<lparr>codexQueue := a9\<rparr>) = konts s"
  "konts (s\<lparr>jobs := a10\<rparr>) = konts s"
  "konts (s\<lparr>spawns := a11\<rparr>) = konts s"
  "konts (s\<lparr>launching := a12\<rparr>) = konts s"
  "konts (s\<lparr>context_file := a14\<rparr>) = konts s"
  "konts (s\<lparr>crashed := a15\<rparr>) = konts s"
  by (simp_all add: konts_def waiters_def)

lemma clean_upd [simp]:
  "clean cwd (s\<lparr>proc := a1\<rparr>) = clean cwd s"
  "clean cwd (s\<lparr>rl := a2\<rparr>) = clean cwd s"
  "clean cwd (s\<lparr>nextId := a3\<rparr>) = clean cwd s"
  "clean cwd (s\<lparr>seededThreads := a4\<rparr>) = clean cwd s"
  "clean cwd (s\<lparr>threadByCwd := a5\<rparr>) = clean cwd s"
  "clean cwd (s\<lparr>out := a6\<rparr>) = clean cwd s"
  "clean cwd (s\<lparr>startupStderr := a7\<rparr>) = clean cwd s"
  "clean cwd (s\<lparr>codexQueue := a9\<rparr>) = clean cwd s"
  "clean cwd (s\<lparr>jobs := a10\<rparr>) = clean cwd s"
  "clean cwd (s\<lparr>spawns := a11\<rparr>) = clean cwd s"
  "clean cwd (s\<lparr>launching := a12\<rparr>) = clean cwd s"
  "clean cwd (s\<lparr>context_file := a14\<rparr>) = clean cwd s"
  "clean cwd (s\<lparr>crashed := a15\<rparr>) = clean cwd s"
  by (simp_all add: clean_def)

lemma clean_starting_None: "clean cwd s \<Longrightarrow> clean cwd (s\<lparr>starting := None\<rparr>)"
  by (auto simp add: clean_iff set_konts split: option.splits)

lemma clean_loginWaiter:
  "clean cwd s \<Longrightarrow> (\<forall>k. w = Some k \<longrightarrow> FGetThread cwd \<notin> set k) \<Longrightarrow> clean cwd (s\<lparr>loginWaiter := w\<rparr>)"
  by (auto simp add: clean_iff set_konts split: option.splits)

lemma clean_currentTurn:
  "clean cwd s \<Longrightarrow> (\<forall>t. w = Some t \<longrightarrow> FGetThread cwd \<notin> set (waiter t)) \<Longrightarrow>
   clean cwd (s\<lparr>currentTurn := w\<rparr>)"
  by (auto simp add: clean_iff set_konts split: option.splits)

lemma clean_pending:
  "clean cwd s \<Longrightarrow> pend_konts tbl \<subseteq> N \<union> pend_konts (pending s) \<Longrightarrow>
   (\<forall>k \<in> N. FGetThread cwd \<notin> set k) \<Longrightarrow> clean cwd (s\<lparr>pending := tbl\<rparr>)"
  by (simp add: clean_iff set_konts split: option.splits) blast+

lemma clean_mq:
  "clean cwd s \<Longrightarrow> set ms \<subseteq> set (mq s) \<Longrightarrow> clean cwd (s\<lparr>mq := ms\<rparr>)"
  by (simp add: clean_iff set_konts split: option.splits) blast+

lemma clean_enqueue:
  "clean cwd s \<Longrightarrow> (\<forall>k r. m = MResume k r \<longrightarrow> FGetThread cwd \<notin> set k) \<Longrightarrow> clean cwd (enqueue m s)"
  by (cases m) (auto simp add: clean_iff dest!: konts_enqueue_resume[THEN subsetD]
      konts_enqueue_start[THEN subsetD])

lemma clean_settle:
  "clean cwd s \<Longrightarrow> (\<forall>k. w = Some k \<longrightarrow> FGetThread cwd \<notin> set k) \<Longrightarrow> clean cwd (settle w r s)"
  by (cases w) (simp_all add: settle_def clean_enqueue)

lemma clean_lookup:
  "clean cwd s \<Longrightarrow> map_of (pending s) i = Some p \<Longrightarrow> pe_waiter p = Some k \<Longrightarrow>
   FGetThread cwd \<notin> set k"
  using pend_konts_lookup[of "pending s" i p] by (auto simp add: clean_iff set_konts)

lemma tproj_enqueue [simp]: "tproj cwd (enqueue m s) = tproj cwd s"
  by (simp add: enqueue_def)

lemma tproj_settle [simp]: "tproj cwd (settle w r s) = tproj cwd s"
  by (simp add: settle_def split: option.split)

lemma kept_enqueue:
  "thread_kept cwd t n s \<Longrightarrow> (\<forall>k r. m = MResume k r \<longrightarrow> FGetThread cwd \<notin> set k) \<Longrightarrow>
   thread_kept cwd t n (enqueue m s)"
  by (simp add: thread_kept_def clean_enqueue)

lemma kept_settle:
  "thread_kept cwd t n s \<Longrightarrow> (\<forall>k. w = Some k \<longrightarrow> FGetThread cwd \<notin> set k) \<Longrightarrow>
   thread_kept cwd t n (settle w r s)"
  by (simp add: thread_kept_def clean_settle)


lemma kept_fold_enqueue:
  "thread_kept cwd t n s \<Longrightarrow> (\<forall>x \<in> set xs. \<forall>k r. g x = MResume k r \<longrightarrow> FGetThread cwd \<notin> set k) \<Longrightarrow>
   thread_kept cwd t n (fold (\<lambda>x. enqueue (g x)) xs s)"
proof (induction xs arbitrary: s)
  case Nil
  then show ?case by simp
next
  case (Cons x xs)
  from Cons.prems have "thread_kept cwd t n (enqueue (g x) s)" by (intro kept_enqueue) auto
  with Cons show ?case by simp
qed

lemma kept_upd:
  "thread_kept cwd t n s \<Longrightarrow> thread_kept cwd t n (s\<lparr>starting := None\<rparr>)"
  "thread_kept cwd t n s \<Longrightarrow> (\<forall>k. w = Some k \<longrightarrow> FGetThread cwd \<notin> set k) \<Longrightarrow>
     thread_kept cwd t n (s\<lparr>loginWaiter := w\<rparr>)"
  "thread_kept cwd t n s \<Longrightarrow> (\<forall>u. c = Some u \<longrightarrow> FGetThread cwd \<notin> set (waiter u)) \<Longrightarrow>
     thread_kept cwd t n (s\<lparr>currentTurn := c\<rparr>)"
  "thread_kept cwd t n s \<Longrightarrow> set ms \<subseteq> set (mq s) \<Longrightarrow> thread_kept cwd t n (s\<lparr>mq := ms\<rparr>)"
  "thread_kept cwd t n s \<Longrightarrow> thread_kept cwd t n (s\<lparr>pending := tbl_delete i (pending s)\<rparr>)"
  by (simp_all add: thread_kept_def clean_starting_None clean_loginWaiter clean_currentTurn clean_mq
        clean_pending[where N = "{}"] pend_konts_tbl_delete)

lemma kept_upd_other [simp]:
  "thread_kept cwd t n (s\<lparr>proc := a1\<rparr>) = thread_kept cwd t n s"
  "thread_kept cwd t n (s\<lparr>rl := a2\<rparr>) = thread_kept cwd t n s"
  "thread_kept cwd t n (s\<lparr>nextId := a3\<rparr>) = thread_kept cwd t n s"
  "thread_kept cwd t n (s\<lparr>seededThreads := a4\<rparr>) = thread_kept cwd t n s"
  "thread_kept cwd t n (s\<lparr>startupStderr := a7\<rparr>) = thread_kept cwd t n s"
  "thread_kept cwd t n (s\<lparr>codexQueue := a9\<rparr>) = thread_kept cwd t n s"
  "thread_kept cwd t n (s\<lparr>jobs := a10\<rparr>) = thread_kept cwd t n s"
  "thread_kept cwd t n (s\<lparr>spawns := a11\<rparr>) = thread_kept cwd t n s"
  "thread_kept cwd t n (s\<lparr>launching := a12\<rparr>) = thread_kept cwd t n s"
  "thread_kept cwd t n (s\<lparr>context_file := a14\<rparr>) = thread_kept cwd t n s"
  "thread_kept cwd t n (s\<lparr>crashed := a15\<rparr>) = thread_kept cwd t n s"
  by (simp_all add: thread_kept_def)

lemma kept_threadByCwd:
  "thread_kept cwd t n s \<Longrightarrow> cwd' \<noteq> cwd \<Longrightarrow>
   thread_kept cwd t n (s\<lparr>threadByCwd := (threadByCwd s)(cwd' \<mapsto> v)\<rparr>)"
  by (simp add: thread_kept_def tproj_def)

lemma kept_out:
  "thread_kept cwd t n s \<Longrightarrow> thread_starts cwd [w] = [] \<Longrightarrow> thread_kept cwd t n (s\<lparr>out := out s @ [w]\<rparr>)"
  by (simp add: thread_kept_def tproj_def thread_starts_append)

lemma kept_pending_set:
  "thread_kept cwd t n s \<Longrightarrow> (\<forall>k. pe_waiter e = Some k \<longrightarrow> FGetThread cwd \<notin> set k) \<Longrightarrow>
   thread_kept cwd t n (s\<lparr>pending := tbl_set i e (pending s)\<rparr>)"
  by (auto simp add: thread_kept_def intro!: clean_pending[where N = "set_option (pe_waiter e)"]
        pend_konts_tbl_set)

lemma kept_sendRpc:
  assumes "thread_kept cwd t n s" and "FGetThread cwd \<notin> set k"
    and "\<not> (m = ''thread/start'' \<and> jget ''cwd'' p = JStr cwd)"
  shows "thread_kept cwd t n (sendRpc m p k s)"
proof -
  let ?i = "nextId s"
  let ?s1 = "s\<lparr>nextId := ?i + 1\<rparr>"
  let ?s2 = "?s1\<lparr>pending := tbl_set ?i \<lparr>pe_method = m, pe_waiter = Some k\<rparr> (pending ?s1)\<rparr>"
  have s1: "thread_kept cwd t n ?s1" using assms(1) by simp
  have s2: "thread_kept cwd t n ?s2"
    by (rule kept_pending_set[OF s1]) (simp add: assms(2))
  show ?thesis
  proof (cases "proc s")
    case True
    have "thread_starts cwd [Request m ?i p] = []" using assms(3) by auto
    from kept_out[OF s2 this] True show ?thesis
      by (simp add: sendRpc_def write_msg_def Let_def)
  next
    case False
    have "thread_kept cwd t n (?s2\<lparr>pending := tbl_set ?i \<lparr>pe_method = m, pe_waiter = None\<rparr> (pending ?s2)\<rparr>)"
      by (rule kept_pending_set[OF s2]) simp
    then have "thread_kept cwd t n
        (enqueue (MResume k (Rejected not_running))
           (?s2\<lparr>pending := tbl_set ?i \<lparr>pe_method = m, pe_waiter = None\<rparr> (pending ?s2)\<rparr>))"
      by (rule kept_enqueue) (simp add: assms(2))
    with False show ?thesis
      by (simp add: sendRpc_def write_msg_def Let_def)
  qed
qed

lemma kept_settle_start: "thread_kept cwd t n s \<Longrightarrow> thread_kept cwd t n (settle_start r s)"
proof (cases "starting s")
  case None
  assume "thread_kept cwd t n s"
  with None show ?thesis by (simp add: settle_start_def)
next
  case (Some p)
  assume st: "thread_kept cwd t n s"
  show ?thesis
  proof (cases "sp_outcome p")
    case (Some r')
    with st \<open>starting s = Some p\<close> show ?thesis by (simp add: settle_start_def)
  next
    case None
    from st \<open>starting s = Some p\<close> have w: "\<forall>k \<in> set (sp_waiters p). FGetThread cwd \<notin> set k"
      by (auto simp add: thread_kept_def clean_iff set_konts)
    from st \<open>starting s = Some p\<close>
    have "thread_kept cwd t n (s\<lparr>starting := Some (p\<lparr>sp_outcome := Some r, sp_waiters := []\<rparr>)\<rparr>)"
      by (auto simp add: thread_kept_def clean_iff set_konts split: option.splits)
    then have "thread_kept cwd t n (fold (\<lambda>k. enqueue (MResume k r)) (sp_waiters p)
        (s\<lparr>starting := Some (p\<lparr>sp_outcome := Some r, sp_waiters := []\<rparr>)\<rparr>))"
      by (rule kept_fold_enqueue) (use w in auto)
    with None \<open>starting s = Some p\<close> show ?thesis by (simp add: settle_start_def)
  qed
qed

lemma kept_await_starting:
  "thread_kept cwd t n s \<Longrightarrow> FGetThread cwd \<notin> set k \<Longrightarrow> thread_kept cwd t n (await_starting k s)"
  by (auto simp add: await_starting_def kept_enqueue split: option.splits)
     (auto simp add: thread_kept_def clean_iff set_konts split: option.splits)

lemma kept_job_done: "thread_kept cwd t n s \<Longrightarrow> thread_kept cwd t n (job_done j r s)"
  unfolding job_done_def Let_def set_status_def
  by (rule kept_fold_enqueue) (auto simp add: then_catch_def split: outcome.splits)


lemma kept_runTurn_send:
  "thread_kept cwd t n s \<Longrightarrow> FGetThread cwd \<notin> set k \<Longrightarrow>
   thread_kept cwd t n (runTurn_send cfg p tid k s)"
  by (auto simp add: runTurn_send_def buildTurnInput_def Let_def intro!: kept_sendRpc)

lemma kept_runTurn_started:
  assumes "thread_kept cwd t n s" and "FGetThread cwd \<notin> set k"
  shows "thread_kept cwd t n (runTurn_started cfg p cwd' k s)"
proof (cases "truthy (case threadByCwd s cwd' of Some v \<Rightarrow> v | None \<Rightarrow> JUndef)")
  case True
  then show ?thesis
    using kept_runTurn_send[OF assms]
    by (simp add: runTurn_started_def getThreadId_def Let_def)
next
  case False
  with assms(1) have ne: "cwd' \<noteq> cwd" by (auto simp add: thread_kept_def tproj_def)
  have "thread_kept cwd t n
      (sendRpc ''thread/start''
         (JObj [(''cwd'', JStr cwd'), (''approvalPolicy'', JStr (CODEX_APPROVAL_POLICY cfg)),
                (''sandbox'', JStr (CODEX_SANDBOX cfg))])
         (FGetThread cwd' # FRunThread p # k) s)"
    by (rule kept_sendRpc[OF assms(1)]) (use ne assms(2) in auto)
  with False show ?thesis
    by (simp add: runTurn_started_def getThreadId_def Let_def)
qed

lemma kept_runTurn:
  assumes "thread_kept cwd t n s" and "FGetThread cwd \<notin> set k"
  shows "thread_kept cwd t n (runTurn cfg p cwd' k s)"
proof (cases "proc s")
  case True
  then show ?thesis
    using kept_runTurn_started[OF assms] by (simp add: runTurn_def ensureStarted_def)
next
  case False
  show ?thesis
  proof (cases "starting s")
    case (Some sp)
    have "thread_kept cwd t n (await_starting (FEnsureOther # FRunStarted p cwd' # k) s)"
      by (rule kept_await_starting[OF assms(1)]) (use assms(2) in auto)
    with False Some show ?thesis by (simp add: runTurn_def ensureStarted_def)
  next
    case None
    let ?s2 = "s\<lparr>spawns := spawns s + 1, launching := True,
                 starting := Some \<lparr>sp_outcome = None, sp_waiters = []\<rparr>\<rparr>"
    from assms(1) None have "thread_kept cwd t n ?s2"
      by (auto simp add: thread_kept_def clean_iff set_konts tproj_def split: option.splits)
    then have "thread_kept cwd t n (await_starting (FEnsureFirst # FRunStarted p cwd' # k) ?s2)"
      by (rule kept_await_starting) (use assms(2) in auto)
    with False None show ?thesis by (simp add: runTurn_def ensureStarted_def start_def Let_def)
  qed
qed

lemma kept_resume:
  "thread_kept cwd t n s \<Longrightarrow> FGetThread cwd \<notin> set k \<Longrightarrow> thread_kept cwd t n (resume cfg k r s)"
proof (induction cfg k r s rule: resume.induct)
  case (2 cfg k v s)
  show ?case
  proof (cases "proc s")
    case True
    have "thread_kept cwd t n (s\<lparr>out := out s @ [Notify ''initialized'' (JObj [])]\<rparr>)"
      by (rule kept_out[OF "2.prems"(1)]) simp
    then have "thread_kept cwd t n
        (sendRpc ''account/read'' (JObj [(''refreshToken'', JBool False)]) [FAccountRead, FLoginDone]
           (s\<lparr>out := out s @ [Notify ''initialized'' (JObj [])]\<rparr>))"
      by (rule kept_sendRpc) auto
    with True show ?thesis
      by (simp add: sendNotification_def write_msg_def ensureLoggedIn_def)
  next
    case False
    with "2.prems" show ?thesis
      by (simp add: sendNotification_def write_msg_def kept_settle_start)
  qed
next
  case (6 cfg k authInfo s)
  then show ?case by (auto intro!: kept_sendRpc)
next
  case (7 cfg k v s)
  then show ?case by (auto intro!: kept_upd(2))
next
  case (9 cfg k v s)
  then show ?case by (auto intro!: kept_upd(1))
next
  case (10 cfg k e s)
  then show ?case by (auto intro!: kept_upd(1))
next
  case (12 cfg prompt cwd' k v s)
  then show ?case by (auto intro!: kept_runTurn_started)
next
  case (13 cfg cwd' k result s)
  then show ?case by (auto simp add: Let_def intro!: kept_threadByCwd)
next
  case (14 cfg prompt k threadId s)
  then show ?case by (auto intro!: kept_runTurn_send)
next
  case (15 cfg k result s)
  then show ?case by (auto simp add: Let_def intro!: kept_upd(3))
qed (auto simp add: kept_settle_start kept_job_done)


lemma kept_mq_head:
  "thread_kept cwd t n s \<Longrightarrow> mq s = MResume k r # ms \<Longrightarrow> FGetThread cwd \<notin> set k"
  by (auto simp add: thread_kept_def clean_iff set_konts)

lemma kept_run_microtask:
  assumes "thread_kept cwd t n s" and "mq s = m # ms"
  shows "thread_kept cwd t n (run_microtask cfg m (s\<lparr>mq := ms\<rparr>))"
proof -
  have s': "thread_kept cwd t n (s\<lparr>mq := ms\<rparr>)"
    by (rule kept_upd(4)[OF assms(1)]) (simp add: assms(2) subset_insertI)
  show ?thesis
  proof (cases m)
    case (MResume k r)
    with assms have "FGetThread cwd \<notin> set k" by (simp add: kept_mq_head)
    with s' MResume show ?thesis by (simp add: run_microtask_def kept_resume)
  next
    case (MStartJob j)
    show ?thesis
    proof (cases "find (\<lambda>x. j_id x = j) (jobs s)")
      case None
      with s' MStartJob show ?thesis by (simp add: run_microtask_def)
    next
      case (Some x)
      have "thread_kept cwd t n
          (runTurn cfg (j_prompt x) (j_cwd x) [FJob j] (set_status j JRunning (s\<lparr>mq := ms\<rparr>)))"
        by (rule kept_runTurn) (use s' in \<open>simp_all add: set_status_def\<close>)
      with Some MStartJob show ?thesis by (simp add: run_microtask_def)
    qed
  qed
qed

lemma kept_sendCodexPrompt:
  "thread_kept cwd t n s \<Longrightarrow> thread_kept cwd t n (sendCodexPrompt p cwd' s)"
  by (auto simp add: sendCodexPrompt_def Let_def then_catch_def intro!: kept_enqueue
        split: option.splits outcome.splits)

lemma kept_on_spawn: "thread_kept cwd t n s \<Longrightarrow> thread_kept cwd t n (on_spawn s)"
  unfolding on_spawn_def by (rule kept_sendRpc) simp_all

lemma kept_on_spawn_error: "thread_kept cwd t n s \<Longrightarrow> thread_kept cwd t n (on_spawn_error msg s)"
  by (simp add: on_spawn_error_def kept_settle_start)

lemma kept_turn:
  "thread_kept cwd t n s \<Longrightarrow> currentTurn s = Some u \<Longrightarrow> FGetThread cwd \<notin> set (waiter u)"
  by (auto simp add: thread_kept_def clean_iff set_konts)

lemma kept_login:
  "thread_kept cwd t n s \<Longrightarrow> loginWaiter s = Some k \<Longrightarrow> FGetThread cwd \<notin> set k"
  by (auto simp add: thread_kept_def clean_iff set_konts)

lemma kept_pending:
  "thread_kept cwd t n s \<Longrightarrow> map_of (pending s) i = Some p \<Longrightarrow> pe_waiter p = Some k \<Longrightarrow>
   FGetThread cwd \<notin> set k"
  by (auto simp add: thread_kept_def dest: clean_lookup)

lemma kept_on_stderr: "thread_kept cwd t n s \<Longrightarrow> thread_kept cwd t n (on_stderr chunk s)"
  by (auto simp add: on_stderr_def Let_def split: option.splits
        intro!: kept_upd(3) dest: kept_turn[where s = s])

lemma kept_turnTimeout: "thread_kept cwd t n s \<Longrightarrow> thread_kept cwd t n (turnTimeout s)"
  by (auto simp add: turnTimeout_def split: option.splits
        intro!: kept_settle kept_upd(3) dest: kept_turn)

lemma kept_loginTimeout: "thread_kept cwd t n s \<Longrightarrow> thread_kept cwd t n (loginTimeout s)"
  by (auto simp add: loginTimeout_def split: option.splits
        intro!: kept_settle kept_upd(2) dest: kept_login)

lemma kept_finishTurn: "thread_kept cwd t n s \<Longrightarrow> thread_kept cwd t n (finishTurn s)"
  by (auto simp add: finishTurn_def split: option.splits
        intro!: kept_settle kept_upd(3) dest: kept_turn)

lemma kept_rpcTimeout: "thread_kept cwd t n s \<Longrightarrow> thread_kept cwd t n (rpcTimeout i s)"
  by (auto simp add: rpcTimeout_def Let_def split: option.splits
        intro!: kept_settle kept_upd(5) dest: kept_pending)



lemma handleNotification_login:
  "loginWaiter s = Some k \<Longrightarrow>
   handleNotification (JStr ''account/login/completed'') params s =
     settle (Some k)
       (if truthy (jget ''success'' params) then Resolved params
        else Rejected (Error (js_String (js_or (jget ''error'' params) (JStr ''Codex login failed.''))) None))
       (s\<lparr>loginWaiter := None\<rparr>)"
  by (simp add: handleNotification_def Let_def)

lemma handleNotification_idle:
  "\<not> (method = JStr ''account/login/completed'' \<and> loginWaiter s \<noteq> None) \<Longrightarrow>
   currentTurn s = None \<Longrightarrow> handleNotification method params s = s"
  by (auto simp add: handleNotification_def)

lemma handleNotification_crash:
  "\<not> is_string method \<Longrightarrow> currentTurn s = Some u \<Longrightarrow>
   handleNotification method params s = s\<lparr>crashed := True\<rparr>"
  by (cases "method") (auto simp add: handleNotification_def)

lemma handleNotification_turn:
  "\<not> (m = ''account/login/completed'' \<and> loginWaiter s \<noteq> None) \<Longrightarrow> currentTurn s = Some u \<Longrightarrow>
   handleNotification (JStr m) params s =
     (let t1 = (case summarizeCodexNotification m params of
                  None \<Rightarrow> u
                | Some summary \<Rightarrow> if summary \<noteq> [] then u\<lparr>events := events u @ [summary]\<rparr> else u)
      in if truthy (turnId_of params) \<and> truthy (turnId t1) \<and> turnId_of params \<noteq> turnId t1
         then s\<lparr>currentTurn := Some t1\<rparr>
         else if m = ''turn/completed'' then finishTurn (s\<lparr>currentTurn := Some t1\<rparr>)
         else if starts_with m ''item/'' \<and> extractTextFromParams params \<noteq> []
         then s\<lparr>currentTurn := Some (t1\<lparr>stdout := stdout t1 @ extractTextFromParams params\<rparr>)\<rparr>
         else s\<lparr>currentTurn := Some t1\<rparr>)"
  by (auto simp add: handleNotification_def Let_def)

lemma kept_handleNotification:
  assumes "thread_kept cwd t n s"
  shows "thread_kept cwd t n (handleNotification method params s)"
proof (cases "method = JStr ''account/login/completed'' \<and> loginWaiter s \<noteq> None")
  case True
  then obtain k where k: "loginWaiter s = Some k" by auto
  have "thread_kept cwd t n (settle (Some k) r (s\<lparr>loginWaiter := None\<rparr>))" for r
  proof (rule kept_settle)
    show "thread_kept cwd t n (s\<lparr>loginWaiter := None\<rparr>)"
      by (rule kept_upd(2)[OF assms]) simp
    show "\<forall>k'. Some k = Some k' \<longrightarrow> FGetThread cwd \<notin> set k'"
      using kept_login[OF assms k] by simp
  qed
  with True show ?thesis by (simp add: handleNotification_login[OF k])
next
  case False
  show ?thesis
  proof (cases "currentTurn s")
    case None
    with assms show ?thesis by (simp add: handleNotification_idle[OF False])
  next
    case (Some u)
    with assms have w: "FGetThread cwd \<notin> set (waiter u)" by (rule kept_turn)
    have upd: "thread_kept cwd t n (s\<lparr>currentTurn := Some u'\<rparr>)" if "waiter u' = waiter u" for u'
      by (rule kept_upd(3)[OF assms]) (use w that in simp)
    show ?thesis
    proof (cases "is_string method")
      case False
      with assms Some show ?thesis by (simp add: handleNotification_crash)
    next
      case True
      then obtain m where m: "method = JStr m" by (cases "method") auto
      define t1 where "t1 =
        (case summarizeCodexNotification m params of
           None \<Rightarrow> u
         | Some summary \<Rightarrow> if summary \<noteq> [] then u\<lparr>events := events u @ [summary]\<rparr> else u)"
      have wt: "waiter t1 = waiter u" by (simp add: t1_def split: option.split)
      have k1: "thread_kept cwd t n (s\<lparr>currentTurn := Some t1\<rparr>)" by (rule upd[OF wt])
      have k2: "thread_kept cwd t n (finishTurn (s\<lparr>currentTurn := Some t1\<rparr>))"
        by (rule kept_finishTurn[OF k1])
      have k3: "thread_kept cwd t n (s\<lparr>currentTurn := Some (t1\<lparr>stdout := x\<rparr>)\<rparr>)" for x
        by (rule upd) (simp add: wt)
      from \<open>\<not> (method = JStr ''account/login/completed'' \<and> loginWaiter s \<noteq> None)\<close> m
      have nl: "\<not> (m = ''account/login/completed'' \<and> loginWaiter s \<noteq> None)" by simp
      show ?thesis
        unfolding m handleNotification_turn[OF nl Some] t1_def[symmetric] Let_def
        using k1 k2 k3 by simp
    qed
  qed
qed

lemma kept_handleLine:
  assumes "thread_kept cwd t n s"
  shows "thread_kept cwd t n (handleLine line s)"
proof (cases line)
  case None
  with assms show ?thesis by (simp add: handleLine_def)
next
  case (Some message)
  show ?thesis
  proof (cases "message = JNull")
    case True
    with assms Some show ?thesis by (simp add: handleLine_def)
  next
    case False
    note nn = this
    show ?thesis
    proof (cases "jget ''id'' message")
      case (JNum i)
      show ?thesis
      proof (cases "map_of (pending s) i")
        case None
        with assms Some nn JNum show ?thesis by (simp add: handleLine_def)
      next
        case (Some p)
        have "thread_kept cwd t n (settle (pe_waiter p) r (s\<lparr>pending := tbl_delete i (pending s)\<rparr>))" for r
        proof (rule kept_settle)
          show "thread_kept cwd t n (s\<lparr>pending := tbl_delete i (pending s)\<rparr>)"
            by (rule kept_upd(5)[OF assms])
          show "\<forall>k. pe_waiter p = Some k \<longrightarrow> FGetThread cwd \<notin> set k"
            using kept_pending[OF assms Some] by simp
        qed
        with \<open>line = Some message\<close> nn JNum Some show ?thesis
          by (simp add: handleLine_def Let_def)
      qed
    qed (use assms Some nn in \<open>simp_all add: handleLine_def kept_handleNotification\<close>)
  qed
qed

lemma kept_step:
  assumes "thread_kept cwd t n s" and "e \<noteq> Close"
  shows "thread_kept cwd t n (step cfg e s)"
proof (cases "crashed s")
  case True
  with assms show ?thesis by (simp add: step_def)
next
  case False
  note nc = this
  show ?thesis
  proof (cases "mq s")
    case (Cons m ms)
    with assms nc kept_run_microtask[OF assms(1) Cons, of cfg] show ?thesis
      by (simp add: step_def)
  next
    case Nil
    with assms nc show ?thesis
      by (cases e)
         (simp_all add: step_def kept_sendCodexPrompt kept_on_spawn kept_on_spawn_error
            kept_handleLine kept_rpcTimeout kept_turnTimeout kept_loginTimeout kept_on_stderr)
  qed
qed

lemma kept_run:
  "thread_kept cwd t n s \<Longrightarrow> Close \<notin> set es \<Longrightarrow> thread_kept cwd t n (run cfg es s)"
proof (induction es arbitrary: s)
  case Nil
  then show ?case by (simp add: run_def)
next
  case (Cons e es)
  from Cons.prems have "thread_kept cwd t n (step cfg e s)" by (intro kept_step) auto
  with Cons show ?case by (simp add: run_def)
qed

lemma thread_miss:
  "proc s \<and> \<not> truthy (case threadByCwd s cwd of Some v \<Rightarrow> v | None \<Rightarrow> JUndef) \<longrightarrow>
     getThreadId cfg cwd k s =
       Suspended
         (s\<lparr>nextId := nextId s + 1,
            pending := tbl_set (nextId s)
              \<lparr>pe_method = ''thread/start'', pe_waiter = Some (FGetThread cwd # k)\<rparr> (pending s),
            out := out s @ [Request ''thread/start'' (nextId s)
                      (JObj [(''cwd'', JStr cwd),
                             (''approvalPolicy'', JStr (CODEX_APPROVAL_POLICY cfg)),
                             (''sandbox'', JStr (CODEX_SANDBOX cfg))])]\<rparr>)"
  by (simp add: getThreadId_def Let_def sendRpc_running)

lemma thread_cached:
  "truthy (jget ''id'' (jget ''thread'' result)) \<longrightarrow>
     resume cfg (FGetThread cwd # k) (Resolved result) s =
       resume cfg k (Resolved (jget ''id'' (jget ''thread'' result)))
         (s\<lparr>threadByCwd := (threadByCwd s)(cwd \<mapsto> jget ''id'' (jget ''thread'' result))\<rparr>)"
  by (simp add: Let_def)

lemma thread_hit:
  "threadByCwd s cwd = Some t \<and> truthy t \<longrightarrow> getThreadId cfg cwd k s = Returned t"
  by (simp add: getThreadId_def Let_def)

lemma thread_missing_id:
  "\<not> truthy (jget ''id'' (jget ''thread'' result)) \<longrightarrow>
     resume cfg (FGetThread cwd # k) (Resolved result) s =
       resume cfg k (Rejected (Error ''Codex app-server did not return a thread id.'' None)) s"
  by (simp add: Let_def)

lemma kept_iff:
  "thread_kept cwd t n s \<longleftrightarrow> settled_thread cwd t s \<and> thread_starts cwd (out s) = n"
  by (auto simp add: thread_kept_def settled_thread_def tproj_def)

lemma thread_stays:
  "settled_thread cwd t s \<and> Close \<notin> set es \<longrightarrow>
     settled_thread cwd t (run cfg es s)
     \<and> getThreadId cfg cwd k' (run cfg es s) = Returned t
     \<and> thread_starts cwd (out (run cfg es s)) = thread_starts cwd (out s)"
proof
  assume a: "settled_thread cwd t s \<and> Close \<notin> set es"
  then have "thread_kept cwd t (thread_starts cwd (out s)) s" by (simp add: kept_iff)
  with a have "thread_kept cwd t (thread_starts cwd (out s)) (run cfg es s)"
    by (simp add: kept_run)
  then have st: "settled_thread cwd t (run cfg es s)"
    and o: "thread_starts cwd (out (run cfg es s)) = thread_starts cwd (out s)"
    by (simp_all add: kept_iff)
  from st have "getThreadId cfg cwd k' (run cfg es s) = Returned t"
    by (simp add: settled_thread_def getThreadId_def Let_def)
  with st o show "settled_thread cwd t (run cfg es s)
     \<and> getThreadId cfg cwd k' (run cfg es s) = Returned t
     \<and> thread_starts cwd (out (run cfg es s)) = thread_starts cwd (out s)"
    by simp
qed

text \<open>
  C5 (thread stability), as the code has it.  A \<^verbatim>\<open>getThreadId(cwd)\<close> call that finds no
  binding writes exactly one thread-start request for \<open>cwd\<close> and suspends; when the
  answer carries a thread identifier, the identifier is stored under \<open>cwd\<close> and
  returned.  Once \<open>cwd\<close> is bound and no other \<^verbatim>\<open>getThreadId(cwd)\<close> call is suspended on
  a thread-start request, the binding stays through every run in which the subprocess
  does not exit: every later call returns the same identifier and no further
  thread-start request for \<open>cwd\<close> is written.  When the answer carries no thread
  identifier the call throws and the map is left as it is.  (\<^verbatim>\<open>getThreadId\<close> has no
  guard of its own against a call made while an earlier one for the same directory is
  still suspended.)
\<close>

theorem thread_binding_kept:
  "(proc s \<and> \<not> truthy (case threadByCwd s cwd of Some v \<Rightarrow> v | None \<Rightarrow> JUndef) \<longrightarrow>
     getThreadId cfg cwd k s =
       Suspended
         (s\<lparr>nextId := nextId s + 1,
            pending := tbl_set (nextId s)
              \<lparr>pe_method = ''thread/start'', pe_waiter = Some (FGetThread cwd # k)\<rparr> (pending s),
            out := out s @ [Request ''thread/start'' (nextId s)
                      (JObj [(''cwd'', JStr cwd),
                             (''approvalPolicy'', JStr (CODEX_APPROVAL_POLICY cfg)),
                             (''sandbox'', JStr (CODEX_SANDBOX cfg))])]\<rparr>))
   \<and> (truthy (jget ''id'' (jget ''thread'' result)) \<longrightarrow>
     resume cfg (FGetThread cwd # k) (Resolved result) s =
       resume cfg k (Resolved (jget ''id'' (jget ''thread'' result)))
         (s\<lparr>threadByCwd := (threadByCwd s)(cwd \<mapsto> jget ''id'' (jget ''thread'' result))\<rparr>))
   \<and> (settled_thread cwd t s \<and> Close \<notin> set es \<longrightarrow>
     settled_thread cwd t (run cfg es s)
     \<and> getThreadId cfg cwd k' (run cfg es s) = Returned t
     \<and> thread_starts cwd (out (run cfg es s)) = thread_starts cwd (out s))
   \<and> (\<not> truthy (jget ''id'' (jget ''thread'' result)) \<longrightarrow>
     resume cfg (FGetThread cwd # k) (Resolved result) s =
       resume cfg k (Rejected (Error ''Codex app-server did not return a thread id.'' None)) s)"
  using thread_miss[of s cwd cfg k] thread_cached[of result cfg cwd k s]
    thread_stays[of cwd t s es cfg k'] thread_missing_id[of result cfg cwd k s]
  by (intro conjI)

theorem thread_binding_kept_witness:
  "proc spawned0 \<and> threadByCwd spawned0 ''/w'' = None \<and>
   getThreadId cfg0 ''/w'' [FRunThread ''p'', FJob 0] spawned0 =
     Suspended (spawned0\<lparr>nextId := 4,
       pending := [(3, \<lparr>pe_method = ''thread/start'',
                        pe_waiter = Some [FGetThread ''/w'', FRunThread ''p'', FJob 0]\<rparr>)],
       out := [Request ''thread/start'' 3
                 (JObj [(''cwd'', JStr ''/w''), (''approvalPolicy'', JStr ''never''),
                        (''sandbox'', JStr ''workspace-write'')])]\<rparr>) \<and>
   threadByCwd (resume cfg0 [FGetThread ''/w''] (Resolved thread_reply) spawned0) ''/w'' = Some (JStr ''t1'') \<and>
   resume cfg0 [FGetThread ''/w''] (Resolved (JObj [])) spawned0 = spawned0 \<and>
   settled_thread ''/w'' (JStr ''t1'') (run cfg0 (take 11 run_serial) init) \<and>
   Close \<notin> set (drop 11 run_serial) \<and>
   getThreadId cfg0 ''/w'' [] (run cfg0 (drop 11 run_serial) (run cfg0 (take 11 run_serial) init)) =
     Returned (JStr ''t1'') \<and>
   length (thread_starts ''/w'' (out (run cfg0 (drop 11 run_serial) (run cfg0 (take 11 run_serial) init)))) = 1"
proof -
  have st: "settled_thread ''/w'' (JStr ''t1'') (run cfg0 (take 11 run_serial) init)"
    by (simp add: model_defs run_defs settled_thread_def clean_def konts_def waiters_def
          map_filter_simps)
  have nc: "Close \<notin> set (drop 11 run_serial)"
    by (simp add: run_defs ok_def err_def)
  have n: "length (thread_starts ''/w'' (out (run cfg0 (take 11 run_serial) init))) = 1"
    by (simp add: model_defs run_defs)
  have a: "threadByCwd spawned0 ''/w'' = None" "proc spawned0"
    by (simp_all add: spawned0_def init_def)
  have b: "getThreadId cfg0 ''/w'' [FRunThread ''p'', FJob 0] spawned0 =
     Suspended (spawned0\<lparr>nextId := 4,
       pending := [(3, \<lparr>pe_method = ''thread/start'',
                        pe_waiter = Some [FGetThread ''/w'', FRunThread ''p'', FJob 0]\<rparr>)],
       out := [Request ''thread/start'' 3
                 (JObj [(''cwd'', JStr ''/w''), (''approvalPolicy'', JStr ''never''),
                        (''sandbox'', JStr ''workspace-write'')])]\<rparr>)"
    using thread_binding_kept[where s = spawned0 and cwd = "''/w''" and cfg = cfg0
          and k = "[FRunThread ''p'', FJob 0]"] a
    by (simp add: spawned0_def init_def cfg0_def tbl_set_def)
  have c: "threadByCwd (resume cfg0 [FGetThread ''/w''] (Resolved thread_reply) spawned0) ''/w'' =
      Some (JStr ''t1'')"
    using thread_binding_kept[where s = spawned0 and cwd = "''/w''" and cfg = cfg0
          and k = "[]" and result = thread_reply]
    by (simp add: thread_reply_def)
  have d: "resume cfg0 [FGetThread ''/w''] (Resolved (JObj [])) spawned0 = spawned0"
    using thread_binding_kept[where s = spawned0 and cwd = "''/w''" and cfg = cfg0
          and k = "[]" and result = "JObj []"]
    by simp
  from thread_binding_kept[where s = "run cfg0 (take 11 run_serial) init" and cwd = "''/w''"
          and cfg = cfg0 and t = "JStr ''t1''" and es = "drop 11 run_serial" and k' = "[]"]
    st nc n a b c d
  show ?thesis by simp
qed

text \<open>
  The claim as stated fails on the run \<open>run_threads\<close>: the second call of
  \<^verbatim>\<open>getThreadId\<close> for \<^verbatim>\<open>/v\<close>, made while the first is suspended, writes a second
  thread-start request; the two turns run on different threads and the identifier of
  the second answer replaces that of the first in the map.
\<close>

theorem thread_requested_twice_counterexample:
  "deliverable_run cfg0 run_threads init
   \<and> thread_starts ''/v'' (out (run cfg0 run_threads init)) =
     [Request ''thread/start'' 5
        (JObj [(''cwd'', JStr ''/v''), (''approvalPolicy'', JStr ''never''),
               (''sandbox'', JStr ''workspace-write'')]),
      Request ''thread/start'' 6
        (JObj [(''cwd'', JStr ''/v''), (''approvalPolicy'', JStr ''never''),
               (''sandbox'', JStr ''workspace-write'')])]
   \<and> map (\<lambda>w. case w of Request m i p \<Rightarrow> jget ''threadId'' p | Notify m p \<Rightarrow> JUndef)
        (drop 7 (out (run cfg0 run_threads init))) = [JStr ''t5'', JStr ''t6'']
   \<and> threadByCwd (run cfg0 run_threads init) ''/v'' = Some (JStr ''t6'')"
  by (simp add: model_defs run_defs run_threads_def)


end
